theory Spec2Isabelle
  imports Main "HOL-Library.AList"
begin

section \<open>Bodies and symmetric composites\<close>

text \<open>
  Shallow embedding of \<^verbatim>\<open>capytaine/symmetries.py\<close>: the two symmetric composite bodies
  \<^verbatim>\<open>ReflectionSymmetry\<close> and \<^verbatim>\<open>TranslationalSymmetry\<close>, their constructors and their
  \<^verbatim>\<open>build_matrices\<close> methods.

  The classes \<^verbatim>\<open>FloatingBody\<close> and \<^verbatim>\<open>CollectionOfFloatingBodies\<close> and the class
  \<^verbatim>\<open>Plane\<close> are imported by the module and not defined in it. Their methods
  (\<^verbatim>\<open>copy\<close>, \<^verbatim>\<open>mirror\<close>, \<^verbatim>\<open>translate\<close>, \<^verbatim>\<open>build_matrices\<close>) are parameters of the
  definitions below; the attributes the module reads and writes are record fields.
\<close>

datatype error =
    AssertionError
  | UnboundLocalError
  | IndexError
  | ValueError
  | InvalidSymmetryArgument
    \<comment> \<open>named by the specification's error taxonomy; no statement of the module raises it\<close>

text \<open>
  A Python value as far as \<^verbatim>\<open>isinstance(x, int)\<close> can tell: \<^verbatim>\<open>bool\<close> is a subclass of
  \<^verbatim>\<open>int\<close> (with \<^verbatim>\<open>True == 1\<close>, \<^verbatim>\<open>False == 0\<close>); every other object is not an int.
\<close>

datatype 'o pyval = PyInt int | PyBool bool | PyObject 'o

fun isinstance_int :: "'o pyval \<Rightarrow> bool" where
  "isinstance_int (PyInt _) = True"
| "isinstance_int (PyBool _) = True"
| "isinstance_int (PyObject _) = False"

fun int_value :: "'o pyval \<Rightarrow> int" where
  "int_value (PyInt i) = i"
| "int_value (PyBool b) = (if b then 1 else 0)"
| "int_value (PyObject _) = 0"

text \<open>
  Every body has a name and a dictionary of degrees of freedom, from the name of the
  degree of freedom to a one-dimensional array with one entry per face. A dictionary is an
  association list in insertion order; \<^verbatim>\<open>d[k] = v\<close> is \<^const>\<open>AList.update\<close>, which replaces
  the value of a key already there and appends a new key at the end, as Python does.
\<close>

record 's named_body =
  name :: string
  dofs :: "(string \<times> 's list) list"

record ('g, 's) FloatingBody = "'s named_body" +
  nb_faces :: nat
  nb_matrices_to_keep :: int
  geometry :: 'g

record ('g, 's) SymmetricBody = "'s named_body" +
  subbodies :: "('g, 's) FloatingBody list"

definition collection_nb_faces :: "('g, 's) SymmetricBody \<Rightarrow> nat" where
  \<comment> \<open>Modelled from the spec: the property \<^verbatim>\<open>nb_faces\<close> of \<^verbatim>\<open>CollectionOfFloatingBodies\<close>
      (not in the module), "a total face count equal to the sum of generators' face
      counts".\<close>
  "collection_nb_faces self = sum_list (map nb_faces (subbodies self))"

subsection \<open>String formatting\<close>

text \<open>\<^verbatim>\<open>str(i)\<close> for an integer, as the f-string \<^verbatim>\<open>f"repetition_{i}_of_..."\<close> formats it.\<close>

fun str_nat :: "nat \<Rightarrow> string" where
  "str_nat n =
     (if n < 10 then [''0123456789'' ! n]
      else str_nat (n div 10) @ [''0123456789'' ! (n mod 10)])"

declare str_nat.simps [simp del]

definition str_int :: "int \<Rightarrow> string" where
  "str_int i = (if i < 0 then CHR ''-'' # str_nat (nat (- i)) else str_nat (nat i))"

subsection \<open>Construction\<close>

definition CollectionOfFloatingBodies_init ::
  "('g, 's) FloatingBody list \<Rightarrow> ('g, 's) SymmetricBody" where
  \<comment> \<open>Modelled from the spec: the constructor of \<^verbatim>\<open>CollectionOfFloatingBodies\<close> (not in the
      module); a composite is "an ordered sequence of sub-bodies", kept in the order given.
      The name and the degrees of freedom it sets are not known; both constructors below
      overwrite them before anything reads them.\<close>
  "CollectionOfFloatingBodies_init bodies = \<lparr>name = [], dofs = [], subbodies = bodies\<rparr>"

text \<open>
  \<^verbatim>\<open>ReflectionSymmetry.__init__(self, half, plane)\<close>. The two \<^verbatim>\<open>isinstance\<close> assertions hold
  by typing. The constructor mutates the caller's \<^verbatim>\<open>half\<close> (its \<^verbatim>\<open>nb_matrices_to_keep\<close> is
  doubled) before copying it, and the composite keeps a reference to that same object, so
  the result is the composite together with the state of \<^verbatim>\<open>half\<close> after the call.
\<close>

definition ReflectionSymmetry_init ::
  "(('g, 's) FloatingBody \<Rightarrow> ('g, 's) FloatingBody) \<Rightarrow>
   ('p \<Rightarrow> ('g, 's) FloatingBody \<Rightarrow> ('g, 's) FloatingBody) \<Rightarrow>
   ('g, 's) FloatingBody \<Rightarrow> 'p \<Rightarrow> ('g, 's) SymmetricBody \<times> ('g, 's) FloatingBody" where
  "ReflectionSymmetry_init copy mirror half plane =
     (let half = half\<lparr>nb_matrices_to_keep := nb_matrices_to_keep half * 2\<rparr>;
          other_half = copy half;
          other_half = mirror plane other_half;
          other_half = other_half\<lparr>name := ''mirror_of_'' @ name half\<rparr>;
          self = CollectionOfFloatingBodies_init [half, other_half];
          self = self\<lparr>name := ''mirrored_'' @ name half\<rparr>;
          self = self\<lparr>dofs := []\<rparr>;
          self = fold (\<lambda>(name, dof) self.
                   self\<lparr>dofs := AList.update (''mirrored_'' @ name) (dof @ dof) (dofs self)\<rparr>)
                   (dofs half) self
      in (self, half))"

text \<open>
  \<^verbatim>\<open>TranslationalSymmetry.__init__(self, body_slice, translation, nb_repetitions=1)\<close>.
  The assertions are taken as enabled (Python without \<^verbatim>\<open>-O\<close>); each failing one raises
  \<^verbatim>\<open>AssertionError\<close>, and all of them come before the first mutation. \<^verbatim>\<open>translation\<close> is
  a flat sequence, so its shape is \<^verbatim>\<open>(len,)\<close>; \<open>mul\<close> is the product \<^verbatim>\<open>i*x\<close> of the loop
  index with one component. The loop \<^verbatim>\<open>for i in range(1, nb_repetitions+1)\<close> appends one
  slice per round; \<open>new_slice\<close> is its body.
\<close>

definition new_slice ::
  "(('g, 's) FloatingBody \<Rightarrow> ('g, 's) FloatingBody) \<Rightarrow>
   ('t list \<Rightarrow> ('g, 's) FloatingBody \<Rightarrow> ('g, 's) FloatingBody) \<Rightarrow>
   (int \<Rightarrow> 't \<Rightarrow> 't) \<Rightarrow> ('g, 's) FloatingBody \<Rightarrow> 't list \<Rightarrow> int \<Rightarrow> int \<Rightarrow>
   ('g, 's) FloatingBody" where
  "new_slice copy translate mul body_slice translation nb_repetitions i =
     (let new_slice = copy body_slice;
          new_slice = translate (map (mul i) translation) new_slice;
          new_slice = new_slice\<lparr>nb_matrices_to_keep :=
                         nb_matrices_to_keep new_slice * (nb_repetitions + 1)\<rparr>;
          new_slice = new_slice\<lparr>name :=
                         ''repetition_'' @ str_int i @ ''_of_'' @ name body_slice\<rparr>
      in new_slice)"

definition TranslationalSymmetry_init ::
  "(('g, 's) FloatingBody \<Rightarrow> ('g, 's) FloatingBody) \<Rightarrow>
   ('t list \<Rightarrow> ('g, 's) FloatingBody \<Rightarrow> ('g, 's) FloatingBody) \<Rightarrow>
   (int \<Rightarrow> 't \<Rightarrow> 't) \<Rightarrow> ('g, 's) FloatingBody \<Rightarrow> 't list \<Rightarrow> 'o pyval \<Rightarrow>
   (error + ('g, 's) SymmetricBody) \<times> ('g, 's) FloatingBody" where
  "TranslationalSymmetry_init copy translate mul body_slice translation nb_repetitions =
     (if \<not> isinstance_int nb_repetitions then (Inl AssertionError, body_slice)
      else if \<not> int_value nb_repetitions \<ge> 1 then (Inl AssertionError, body_slice)
      else if [length translation] \<noteq> [3] then (Inl AssertionError, body_slice)
      else
        let n = int_value nb_repetitions;
            body_slice = body_slice\<lparr>nb_matrices_to_keep := nb_matrices_to_keep body_slice * n\<rparr>;
            slices = fold (\<lambda>i slices.
                       slices @ [new_slice copy translate mul body_slice translation n i])
                       [1..n] [body_slice];
            self = CollectionOfFloatingBodies_init slices;
            self = self\<lparr>name := ''repeated_'' @ name body_slice\<rparr>;
            self = self\<lparr>dofs := []\<rparr>;
            self = fold (\<lambda>(name, dof) self.
                     self\<lparr>dofs := AList.update (''translated_'' @ name)
                                   (concat (replicate (nat n) dof)) (dofs self)\<rparr>)
                     (dofs body_slice) self
        in (Inr self, body_slice))"

section \<open>Arrays\<close>

text \<open>
  A two-dimensional numpy array: its element type tag, its shape and its entries. An
  entry is \<open>None\<close> where the memory was never written (\<^verbatim>\<open>np.empty\<close> does not initialise)
  and outside the shape. The scalars themselves are opaque (\<open>'a\<close>); \<open>astype\<close>, a parameter
  of the definitions that write into an array, converts a scalar to an element type.
\<close>

datatype dtype = complex64 | complex128 | float32 | float64

record 'a ndarray =
  dtype :: dtype
  shape :: "nat \<times> nat"
  item :: "nat \<Rightarrow> nat \<Rightarrow> 'a option"

definition np_empty :: "nat \<times> nat \<Rightarrow> dtype \<Rightarrow> 'a ndarray" where
  "np_empty shp dt = \<lparr>dtype = dt, shape = shp, item = (\<lambda>i j. None)\<rparr>"

text \<open>\<^verbatim>\<open>slice(start, stop)\<close> with non-negative bounds; \<open>None\<close> is an omitted bound.\<close>

datatype slice = Slice "nat option" "nat option"

fun indices :: "slice \<Rightarrow> nat \<Rightarrow> nat \<times> nat" where
  \<comment> \<open>\<^verbatim>\<open>slice.indices(len)\<close>: both bounds are clipped to the length of the axis; the slice
      selects \<open>hi - lo\<close> positions (none when \<open>hi \<le> lo\<close>)\<close>
  "indices (Slice start stop) len =
     ((case start of None \<Rightarrow> 0 | Some i \<Rightarrow> min i len),
      (case stop of None \<Rightarrow> len | Some j \<Rightarrow> min j len))"

definition getitem :: "'a ndarray \<Rightarrow> slice \<times> slice \<Rightarrow> 'a ndarray" where
  \<comment> \<open>\<^verbatim>\<open>A[rows, cols]\<close> read\<close>
  "getitem A idx =
     (let (r0, r1) = indices (fst idx) (fst (shape A));
          (c0, c1) = indices (snd idx) (snd (shape A))
      in \<lparr>dtype = dtype A, shape = (r1 - r0, c1 - c0),
          item = (\<lambda>i j. if i < r1 - r0 \<and> j < c1 - c0 then item A (r0 + i) (c0 + j) else None)\<rparr>)"

definition cast :: "(dtype \<Rightarrow> 'a \<Rightarrow> 'a) \<Rightarrow> dtype \<Rightarrow> dtype \<Rightarrow> 'a \<Rightarrow> 'a" where
  \<comment> \<open>a value of an array of type \<open>src\<close> stored into an array of type \<open>dst\<close>\<close>
  "cast astype src dst x = (if src = dst then x else astype dst x)"

definition selected :: "slice \<times> slice \<Rightarrow> nat \<times> nat \<Rightarrow> nat \<Rightarrow> nat \<Rightarrow> bool" where
  \<comment> \<open>position \<open>(i, j)\<close> belongs to \<^verbatim>\<open>A[rows, cols]\<close> for an array of shape \<open>shp\<close>\<close>
  "selected idx shp i j =
     (let (r0, r1) = indices (fst idx) (fst shp);
          (c0, c1) = indices (snd idx) (snd shp)
      in r0 \<le> i \<and> i < r1 \<and> c0 \<le> j \<and> j < c1)"

definition setitem ::
  "(dtype \<Rightarrow> 'a \<Rightarrow> 'a) \<Rightarrow> 'a ndarray \<Rightarrow> slice \<times> slice \<Rightarrow> 'a ndarray \<Rightarrow> error + 'a ndarray" where
  \<comment> \<open>\<^verbatim>\<open>A[rows, cols] = B\<close>: \<open>B\<close> is broadcast to the shape of the selection (an axis of
      \<open>B\<close> fits when it has the selection's length or length 1), else \<^verbatim>\<open>ValueError\<close>; the
      values are converted to the element type of \<open>A\<close>, which keeps its type and shape\<close>
  "setitem astype A idx B =
     (let (r0, r1) = indices (fst idx) (fst (shape A));
          (c0, c1) = indices (snd idx) (snd (shape A));
          (bh, bw) = shape B
      in if (bh = r1 - r0 \<or> bh = 1) \<and> (bw = c1 - c0 \<or> bw = 1)
         then Inr (A\<lparr>item := (\<lambda>i j.
                if selected idx (shape A) i j
                then map_option (cast astype (dtype B) (dtype A))
                       (item B (if bh = r1 - r0 then i - r0 else 0)
                               (if bw = c1 - c0 then j - c0 else 0))
                else item A i j)\<rparr>)
         else Inl ValueError)"

section \<open>Control\<close>

definition bind_result :: "error + 'a \<Rightarrow> ('a \<Rightarrow> error + 'b) \<Rightarrow> error + 'b" where
  \<comment> \<open>one statement after another: an exception ends the sequence\<close>
  "bind_result m f = (case m of Inl e \<Rightarrow> Inl e | Inr x \<Rightarrow> f x)"

fun for_each :: "('x \<Rightarrow> 'st \<Rightarrow> error + 'st) \<Rightarrow> 'x list \<Rightarrow> 'st \<Rightarrow> error + 'st" where
  \<comment> \<open>\<^verbatim>\<open>for x in xs: body\<close> over the variables \<open>st\<close> that the body assigns\<close>
  "for_each body [] st = Inr st"
| "for_each body (x # xs) st =
     (case body x st of Inl e \<Rightarrow> Inl e | Inr st' \<Rightarrow> for_each body xs st')"

definition index :: "'x list \<Rightarrow> nat \<Rightarrow> error + 'x" where
  \<comment> \<open>\<^verbatim>\<open>xs[i]\<close> for \<open>i \<ge> 0\<close>\<close>
  "index xs i = (if i < length xs then Inr (xs ! i) else Inl IndexError)"

fun accumulate_from :: "nat \<Rightarrow> nat list \<Rightarrow> nat list" where
  "accumulate_from acc [] = []"
| "accumulate_from acc (x # xs) = (acc + x) # accumulate_from (acc + x) xs"

definition accumulate :: "nat list \<Rightarrow> nat list" where
  \<comment> \<open>\<^verbatim>\<open>list(itertools.accumulate(xs))\<close>: the running sums\<close>
  "accumulate xs = (case xs of [] \<Rightarrow> [] | x # xs \<Rightarrow> x # accumulate_from x xs)"

section \<open>Influence matrices\<close>

text \<open>
  The second argument of \<^verbatim>\<open>build_matrices\<close> is a reference to a body. The method compares
  it with \<^verbatim>\<open>self\<close> by \<^verbatim>\<open>==\<close>; the module defines no \<^verbatim>\<open>__eq__\<close>, and the comparison is taken
  to be Python's default, the identity of objects (the specification says "same
  identity"). A reference is therefore either the composite itself or another object, a
  plain body or another collection (which may well have the same contents).
\<close>

datatype ('g, 's) body_ref =
    Self
  | Body "('g, 's) FloatingBody"
  | Collection "('g, 's) SymmetricBody"

fun ref_nb_faces :: "('g, 's) SymmetricBody \<Rightarrow> ('g, 's) body_ref \<Rightarrow> nat" where
  "ref_nb_faces self Self = collection_nb_faces self"
| "ref_nb_faces self (Body b) = nb_faces b"
| "ref_nb_faces self (Collection c) = collection_nb_faces c"

text \<open>
  \<open>build_matrices\<close> below is the method \<^verbatim>\<open>build_matrices\<close> of the generators (of
  \<^verbatim>\<open>FloatingBody\<close>, not in the module): the evaluation of the kernel for one pair of
  bodies, returning the pair of arrays \<open>(S, V)\<close>. \<open>assemble\<close> is
  \<^verbatim>\<open>CollectionOfFloatingBodies.build_matrices\<close>, the generic assembly. \<open>kwargs\<close> is the
  keyword configuration, passed on as it is. Both are taken to return: an evaluation of
  the kernel has no exception in the model, the generic assembly may raise. The result of
  the model is what the method returns together with the evaluations of the kernel that
  the method itself made, in order.
\<close>

type_synonym ('g, 's, 'k) kernel_call = "('g, 's) FloatingBody \<times> ('g, 's) FloatingBody \<times> 'k"

definition assign_both ::
  "(dtype \<Rightarrow> 'a \<Rightarrow> 'a) \<Rightarrow> 'a ndarray \<Rightarrow> 'a ndarray \<Rightarrow> slice \<times> slice \<Rightarrow>
   'a ndarray \<times> 'a ndarray \<Rightarrow> error + ('a ndarray \<times> 'a ndarray)" where
  \<comment> \<open>\<^verbatim>\<open>S[block], V[block] = r\<close>: first \<open>S\<close>, then \<open>V\<close>\<close>
  "assign_both astype S V block r =
     bind_result (setitem astype S block (fst r)) (\<lambda>S.
     bind_result (setitem astype V block (snd r)) (\<lambda>V.
     Inr (S, V)))"

subsection \<open>Reflection\<close>

definition top_left :: "nat \<Rightarrow> slice \<times> slice" where
  "top_left nb = (Slice None (Some (nb div 2)), Slice None (Some (nb div 2)))"

definition top_right :: "nat \<Rightarrow> slice \<times> slice" where
  "top_right nb = (Slice None (Some (nb div 2)), Slice (Some (nb div 2)) None)"

definition bottom_left :: "nat \<Rightarrow> slice \<times> slice" where
  "bottom_left nb = (Slice (Some (nb div 2)) None, Slice None (Some (nb div 2)))"

definition bottom_right :: "nat \<Rightarrow> slice \<times> slice" where
  "bottom_right nb = (Slice (Some (nb div 2)) None, Slice (Some (nb div 2)) None)"

definition ReflectionSymmetry_build_matrices ::
  "(('g, 's) FloatingBody \<Rightarrow> ('g, 's) FloatingBody \<Rightarrow> 'k \<Rightarrow> 'a ndarray \<times> 'a ndarray) \<Rightarrow>
   (('g, 's) SymmetricBody \<Rightarrow> ('g, 's) body_ref \<Rightarrow> 'k \<Rightarrow> error + 'a ndarray \<times> 'a ndarray) \<Rightarrow>
   (dtype \<Rightarrow> 'a \<Rightarrow> 'a) \<Rightarrow>
   ('g, 's) SymmetricBody \<Rightarrow> ('g, 's) body_ref \<Rightarrow> bool \<Rightarrow> 'k \<Rightarrow>
   error + (('a ndarray \<times> 'a ndarray) \<times> ('g, 's, 'k) kernel_call list)" where
  "ReflectionSymmetry_build_matrices build_matrices assemble astype
       self other_body force_full_computation kwargs =
     (if other_body = Self \<and> \<not> force_full_computation then
        let S = np_empty (collection_nb_faces self, ref_nb_faces self other_body) complex64;
            V = np_empty (collection_nb_faces self, ref_nb_faces self other_body) complex64;
            nb = collection_nb_faces self
        in
          bind_result (index (subbodies self) 0) (\<lambda>sub0.
          let r = build_matrices sub0 sub0 kwargs;
              calls = [(sub0, sub0, kwargs)]
          in
          bind_result (assign_both astype S V (top_left nb) r) (\<lambda>(S, V).
          bind_result (index (subbodies self) 1) (\<lambda>sub1.
          let r = build_matrices sub0 sub1 kwargs;
              calls = calls @ [(sub0, sub1, kwargs)]
          in
          bind_result (assign_both astype S V (top_right nb) r) (\<lambda>(S, V).
          bind_result (assign_both astype S V (bottom_left nb)
                         (getitem S (top_right nb), getitem V (top_right nb))) (\<lambda>(S, V).
          bind_result (assign_both astype S V (bottom_right nb)
                         (getitem S (top_left nb), getitem V (top_left nb))) (\<lambda>(S, V).
          Inr ((S, V), calls)))))))
      else
        bind_result (assemble self other_body kwargs) (\<lambda>r. Inr (r, [])))"

subsection \<open>Translation\<close>

definition matrix_blocks :: "nat list \<Rightarrow> (slice \<times> slice) list list" where
  \<comment> \<open>the two nested loops that build \<^verbatim>\<open>matrix_blocks\<close> from the list of offsets (the
      local variable \<^verbatim>\<open>nb_faces\<close>; \<^verbatim>\<open>nb_faces[1:]\<close> is its tail)\<close>
  "matrix_blocks offsets =
     map (\<lambda>(i, j).
       map (\<lambda>(k, l). (Slice (Some i) (Some j), Slice (Some k) (Some l)))
         (zip offsets (tl offsets)))
       (zip offsets (tl offsets))"

definition first_row_step ::
  "(('g, 's) FloatingBody \<Rightarrow> ('g, 's) FloatingBody \<Rightarrow> 'k \<Rightarrow> 'a ndarray \<times> 'a ndarray) \<Rightarrow>
   (dtype \<Rightarrow> 'a \<Rightarrow> 'a) \<Rightarrow> ('g, 's) SymmetricBody \<Rightarrow> 'k \<Rightarrow>
   (slice \<times> slice) \<times> ('g, 's) FloatingBody \<Rightarrow>
   ('a ndarray \<times> 'a ndarray) \<times> ('g, 's, 'k) kernel_call list \<Rightarrow>
   error + (('a ndarray \<times> 'a ndarray) \<times> ('g, 's, 'k) kernel_call list)" where
  \<comment> \<open>the body of the loop over \<^verbatim>\<open>zip(matrix_blocks[0], self.subbodies)\<close>\<close>
  "first_row_step build_matrices astype self kwargs = (\<lambda>(matrix_block, body) ((S, V), calls).
     bind_result (index (subbodies self) 0) (\<lambda>sub0.
     let r = build_matrices sub0 body kwargs;
         calls = calls @ [(sub0, body, kwargs)]
     in
     bind_result (assign_both astype S V matrix_block r) (\<lambda>(S, V).
     Inr ((S, V), calls))))"

definition copy_step ::
  "(dtype \<Rightarrow> 'a \<Rightarrow> 'a) \<Rightarrow> (slice \<times> slice) list list \<Rightarrow> nat \<Rightarrow> nat \<Rightarrow>
   'a ndarray \<times> 'a ndarray \<Rightarrow> error + ('a ndarray \<times> 'a ndarray)" where
  \<comment> \<open>the body of the inner copying loop; \<^verbatim>\<open>abs(j-i)\<close> is taken on the integers. Both
      indices are in range in every round: all rows of \<^verbatim>\<open>matrix_blocks\<close> have its length\<close>
  "copy_step astype blocks i j = (\<lambda>(S, V).
     bind_result (setitem astype S (blocks ! i ! j)
                    (getitem S (blocks ! 0 ! nat \<bar>int j - int i\<bar>))) (\<lambda>S.
     bind_result (setitem astype V (blocks ! i ! j)
                    (getitem V (blocks ! 0 ! nat \<bar>int j - int i\<bar>))) (\<lambda>V.
     Inr (S, V))))"

definition TranslationalSymmetry_build_matrices ::
  "(('g, 's) FloatingBody \<Rightarrow> ('g, 's) FloatingBody \<Rightarrow> 'k \<Rightarrow> 'a ndarray \<times> 'a ndarray) \<Rightarrow>
   (('g, 's) SymmetricBody \<Rightarrow> ('g, 's) body_ref \<Rightarrow> 'k \<Rightarrow> error + 'a ndarray \<times> 'a ndarray) \<Rightarrow>
   (dtype \<Rightarrow> 'a \<Rightarrow> 'a) \<Rightarrow>
   ('g, 's) SymmetricBody \<Rightarrow> ('g, 's) body_ref \<Rightarrow> bool \<Rightarrow> 'k \<Rightarrow>
   error + (('a ndarray \<times> 'a ndarray) \<times> ('g, 's, 'k) kernel_call list)" where
  "TranslationalSymmetry_build_matrices build_matrices assemble astype
       self other_body force_full_computation kwargs =
     (if other_body = Self \<and> \<not> force_full_computation then
        let S = np_empty (collection_nb_faces self, ref_nb_faces self other_body) complex64;
            V = np_empty (collection_nb_faces self, ref_nb_faces self other_body) complex64;
            offsets = accumulate (0 # map nb_faces (subbodies self));
            blocks = matrix_blocks offsets
        in
          bind_result (index blocks 0) (\<lambda>first_row.
          bind_result (for_each (first_row_step build_matrices astype self kwargs)
                         (zip first_row (subbodies self)) ((S, V), [])) (\<lambda>((S, V), calls).
          bind_result (for_each (\<lambda>i. for_each (\<lambda>j. copy_step astype blocks i j)
                                        [0 ..< length (blocks ! i)])
                         [1 ..< length blocks] (S, V)) (\<lambda>(S, V).
          Inr ((S, V), calls))))
      else
        \<comment> \<open>the local variable \<^verbatim>\<open>body\<close> is bound only by the loop of the other branch\<close>
        (case (None :: ('g, 's) FloatingBody option) of
           None \<Rightarrow> Inl UnboundLocalError
         | Some body \<Rightarrow> bind_result (assemble self (Body body) kwargs) (\<lambda>r. Inr (r, []))))"

section \<open>What is asked of the collaborators\<close>

definition keeps_faces :: "(('g, 's) FloatingBody \<Rightarrow> ('g, 's) FloatingBody) \<Rightarrow> bool" where
  \<comment> \<open>a geometric operation (\<^verbatim>\<open>copy\<close>, \<^verbatim>\<open>mirror\<close>, \<^verbatim>\<open>translate\<close>) keeps the number of faces\<close>
  "keeps_faces g = (\<forall>b. nb_faces (g b) = nb_faces b)"

definition kernel_shapes ::
  "(('g, 's) FloatingBody \<Rightarrow> ('g, 's) FloatingBody \<Rightarrow> 'k \<Rightarrow> 'a ndarray \<times> 'a ndarray) \<Rightarrow> bool" where
  \<comment> \<open>the evaluation of a pair returns two arrays of shape \<open>(faces a, faces b)\<close>\<close>
  "kernel_shapes build_matrices =
     (\<forall>a b kw. shape (fst (build_matrices a b kw)) = (nb_faces a, nb_faces b) \<and>
               shape (snd (build_matrices a b kw)) = (nb_faces a, nb_faces b))"

section \<open>Closed forms\<close>

text \<open>
  Notions used to state what the methods compute; none of them is part of the module.
  \<open>ndarray_astype\<close> is an array converted to an element type (numpy's \<^verbatim>\<open>A.astype(dt)\<close>).
  \<open>toeplitz_upto\<close> is the matrix of \<open>m\<close> by \<open>m\<close> blocks of \<open>f\<close> by \<open>f\<close> entries in which the
  blocks before block \<open>(i, j)\<close>, row after row, are filled, block \<open>(r, c)\<close> with the
  converted array \<open>K \<bar>c - r\<bar>\<close>, and the other entries are not written yet.
\<close>

definition ndarray_astype :: "(dtype \<Rightarrow> 'a \<Rightarrow> 'a) \<Rightarrow> dtype \<Rightarrow> 'a ndarray \<Rightarrow> 'a ndarray" where
  "ndarray_astype astype dt A =
     \<lparr>dtype = dt, shape = shape A,
      item = (\<lambda>i j. if i < fst (shape A) \<and> j < snd (shape A)
                     then map_option (cast astype (dtype A) dt) (item A i j) else None)\<rparr>"

definition toeplitz_entry ::
  "(dtype \<Rightarrow> 'a \<Rightarrow> 'a) \<Rightarrow> nat \<Rightarrow> (nat \<Rightarrow> 'a ndarray) \<Rightarrow> nat \<Rightarrow> nat \<Rightarrow> 'a option" where
  "toeplitz_entry astype f K p q =
     (let d = nat \<bar>int (q div f) - int (p div f)\<bar>
      in map_option (cast astype (dtype (K d)) complex64) (item (K d) (p mod f) (q mod f)))"

definition toeplitz_upto ::
  "(dtype \<Rightarrow> 'a \<Rightarrow> 'a) \<Rightarrow> nat \<Rightarrow> nat \<Rightarrow> (nat \<Rightarrow> 'a ndarray) \<Rightarrow> nat \<Rightarrow> nat \<Rightarrow> 'a ndarray" where
  "toeplitz_upto astype f m K i j =
     \<lparr>dtype = complex64, shape = (m * f, m * f),
      item = (\<lambda>p q. if p < m * f \<and> q < m * f \<and> (p div f < i \<or> p div f = i \<and> q div f < j)
                     then toeplitz_entry astype f K p q else None)\<rparr>"

section \<open>A concrete setting\<close>

text \<open>
  A plate of two faces with one degree of freedom, geometry reduced to a position, and a
  kernel whose values depend on the separation of the two bodies and on the pair of faces.
\<close>

definition plate :: "(int list, int) FloatingBody" where
  "plate = \<lparr>name = ''plate'', dofs = [(''heave'', [1, 2])],
            nb_faces = 2, nb_matrices_to_keep = 1, geometry = [0, 0, 0]\<rparr>"

definition shift :: "int list \<Rightarrow> (int list, int) FloatingBody \<Rightarrow> (int list, int) FloatingBody" where
  "shift v b = b\<lparr>geometry := map2 (+) (geometry b) v\<rparr>"

definition flip :: "unit \<Rightarrow> (int list, int) FloatingBody \<Rightarrow> (int list, int) FloatingBody" where
  "flip p b = b\<lparr>geometry := map uminus (geometry b)\<rparr>"

definition separation_kernel ::
  "(int list, int) FloatingBody \<Rightarrow> (int list, int) FloatingBody \<Rightarrow> unit \<Rightarrow>
   int ndarray \<times> int ndarray" where
  "separation_kernel a b kw =
     (\<lparr>dtype = complex128, shape = (nb_faces a, nb_faces b),
       item = (\<lambda>i j. Some (1000 * (hd (geometry b) - hd (geometry a)) + 10 * int i + int j))\<rparr>,
      \<lparr>dtype = complex128, shape = (nb_faces a, nb_faces b),
       item = (\<lambda>i j. Some (- (1000 * (hd (geometry b) - hd (geometry a)) + 10 * int i + int j)))\<rparr>)"

definition halve_precision :: "dtype \<Rightarrow> int \<Rightarrow> int" where
  "halve_precision dt x = (if dt = complex64 \<or> dt = float32 then 2 * (x div 2) else x)"

definition no_assembly ::
  "(int list, int) SymmetricBody \<Rightarrow> (int list, int) body_ref \<Rightarrow> unit \<Rightarrow>
   error + int ndarray \<times> int ndarray" where
  "no_assembly self other_body kw = Inr (np_empty (0, 0) complex64, np_empty (0, 0) complex64)"

section \<open>Construction of the composites\<close>

lemma fold_append_each: "fold (\<lambda>i acc. acc @ [g i]) xs ini = ini @ map g xs"
  by (induction xs arbitrary: ini) simp_all

lemma fold_dofs:
  "fold (\<lambda>(name, dof) self. self\<lparr>dofs := AList.update (g name) (h dof) (dofs self)\<rparr>) xs self
     = self\<lparr>dofs := fold (\<lambda>(name, dof) d. AList.update (g name) (h dof) d) xs (dofs self)\<rparr>"
  by (induction xs arbitrary: self) auto

lemma translation_init_subbodies:
  assumes "isinstance_int nb_repetitions" and "1 \<le> int_value nb_repetitions"
    and "length translation = 3"
  shows "TranslationalSymmetry_init copy translate mul body_slice translation nb_repetitions =
     (Inr \<lparr>name = ''repeated_'' @ name body_slice,
           dofs = fold (\<lambda>(name, dof) d. AList.update (''translated_'' @ name)
                    (concat (replicate (nat (int_value nb_repetitions)) dof)) d)
                    (dofs body_slice) [],
           subbodies =
             body_slice\<lparr>nb_matrices_to_keep :=
               nb_matrices_to_keep body_slice * int_value nb_repetitions\<rparr> #
             map (new_slice copy translate mul
                   (body_slice\<lparr>nb_matrices_to_keep :=
                      nb_matrices_to_keep body_slice * int_value nb_repetitions\<rparr>)
                   translation (int_value nb_repetitions))
               [1 .. int_value nb_repetitions]\<rparr>,
      body_slice\<lparr>nb_matrices_to_keep :=
        nb_matrices_to_keep body_slice * int_value nb_repetitions\<rparr>)"
  using assms
  by (simp add: TranslationalSymmetry_init_def Let_def fold_append_each fold_dofs
        CollectionOfFloatingBodies_init_def)

lemma new_slice_name:
  "name (new_slice copy translate mul s d n i) = ''repetition_'' @ str_int i @ ''_of_'' @ name s"
  by (simp add: new_slice_def Let_def)

lemma new_slice_faces:
  "keeps_faces copy \<Longrightarrow> \<forall>v. keeps_faces (translate v) \<Longrightarrow>
   nb_faces (new_slice copy translate mul s d n i) = nb_faces s"
  by (simp add: new_slice_def Let_def keeps_faces_def)

lemma reflection_init_generators:
  assumes "keeps_faces copy" and "keeps_faces (mirror plane)"
  shows "length (subbodies (fst (ReflectionSymmetry_init copy mirror half plane))) = 2"
    and "\<forall>b\<in>set (subbodies (fst (ReflectionSymmetry_init copy mirror half plane))).
           nb_faces b = nb_faces half"
  using assms
  by (simp_all add: ReflectionSymmetry_init_def Let_def keeps_faces_def fold_dofs
        CollectionOfFloatingBodies_init_def)

lemma translation_init_valid:
  assumes "fst (TranslationalSymmetry_init copy translate mul body_slice translation nb_repetitions)
             = Inr self"
  shows "isinstance_int nb_repetitions \<and> 1 \<le> int_value nb_repetitions \<and> length translation = 3"
  using assms by (auto simp: TranslationalSymmetry_init_def split: if_splits)

lemma translation_init_generators:
  assumes "keeps_faces copy" and "\<forall>v. keeps_faces (translate v)"
    and init: "fst (TranslationalSymmetry_init copy translate mul body_slice translation nb_repetitions)
             = Inr self"
  shows "length (subbodies self) = nat (int_value nb_repetitions) + 1"
    and "subbodies self \<noteq> []"
    and "\<forall>b\<in>set (subbodies self). nb_faces b = nb_faces body_slice"
proof -
  from translation_init_valid [OF init]
  have v: "isinstance_int nb_repetitions" "1 \<le> int_value nb_repetitions" "length translation = 3"
    by simp_all
  from init have self: "subbodies self =
      body_slice\<lparr>nb_matrices_to_keep :=
        nb_matrices_to_keep body_slice * int_value nb_repetitions\<rparr> #
      map (new_slice copy translate mul
            (body_slice\<lparr>nb_matrices_to_keep :=
               nb_matrices_to_keep body_slice * int_value nb_repetitions\<rparr>)
            translation (int_value nb_repetitions))
        [1 .. int_value nb_repetitions]"
    unfolding translation_init_subbodies [OF v] by auto
  show "length (subbodies self) = nat (int_value nb_repetitions) + 1"
    using v(2) by (simp add: self)
  show "subbodies self \<noteq> []"
    by (simp add: self)
  show "\<forall>b\<in>set (subbodies self). nb_faces b = nb_faces body_slice"
    using new_slice_faces [OF assms(1,2)] by (auto simp: self)
qed

text \<open>
  C8. A valid construction (an integer count of at least 1, a translation of three
  components) returns a composite whose generators are the slice followed by one copy per
  repetition, in order: generator \<open>i\<close> (from 1 to the count) is the copy of the slice
  translated by \<open>i\<close> times the translation, renamed \<^verbatim>\<open>repetition_i_of_<name>\<close>, a name
  that differs from the slice's. The slice in the first position is the caller's object,
  whose \<^verbatim>\<open>nb_matrices_to_keep\<close> the constructor has multiplied by the count.
\<close>

theorem translation_generators:
  assumes "isinstance_int nb_repetitions" and "1 \<le> int_value nb_repetitions"
    and "length translation = 3"
  shows "\<exists>self. TranslationalSymmetry_init copy translate mul body_slice translation nb_repetitions
           = (Inr self, body_slice\<lparr>nb_matrices_to_keep :=
                nb_matrices_to_keep body_slice * int_value nb_repetitions\<rparr>) \<and>
         length (subbodies self) = nat (int_value nb_repetitions) + 1 \<and>
         subbodies self ! 0 = body_slice\<lparr>nb_matrices_to_keep :=
                nb_matrices_to_keep body_slice * int_value nb_repetitions\<rparr> \<and>
         (\<forall>i. 1 \<le> i \<and> i \<le> int_value nb_repetitions \<longrightarrow>
            subbodies self ! nat i =
              (let copy_i = translate (map (mul i) translation)
                    (copy (body_slice\<lparr>nb_matrices_to_keep :=
                       nb_matrices_to_keep body_slice * int_value nb_repetitions\<rparr>))
               in copy_i\<lparr>nb_matrices_to_keep :=
                      nb_matrices_to_keep copy_i * (int_value nb_repetitions + 1),
                    name := ''repetition_'' @ str_int i @ ''_of_'' @ name body_slice\<rparr>) \<and>
            name (subbodies self ! nat i) \<noteq> name body_slice)"
proof -
  let ?n = "int_value nb_repetitions"
  let ?s = "body_slice\<lparr>nb_matrices_to_keep := nb_matrices_to_keep body_slice * ?n\<rparr>"
  let ?gens = "?s # map (new_slice copy translate mul ?s translation ?n) [1 .. ?n]"
  have len: "length ?gens = nat ?n + 1"
    using assms(2) by simp
  have nth: "?gens ! nat i = new_slice copy translate mul ?s translation ?n i"
    if "1 \<le> i" "i \<le> ?n" for i
  proof -
    from that obtain k where k: "nat i = Suc k" "i = 1 + int k"
      by (metis Suc_nat_eq_nat_zadd1 add.commute diff_ge_0_iff_ge diff_add_cancel nat_0_le of_nat_nat)
    with that have "[1 .. ?n] ! k = i"
      by (simp add: nth_upto)
    moreover from k that have "k < length [1 .. ?n]"
      by simp
    ultimately show ?thesis
      using k by simp
  qed
  have differs: "name (new_slice copy translate mul ?s translation ?n i) \<noteq> name body_slice" for i
    by (simp add: new_slice_name)
  show ?thesis
    unfolding translation_init_subbodies [OF assms]
    using len nth differs
    by (auto simp: new_slice_def Let_def)
qed

text \<open>Two repetitions of the plate along the first axis.\<close>

theorem translation_generators_witness:
  "isinstance_int (PyInt 2 :: unit pyval) \<and> 1 \<le> int_value (PyInt 2 :: unit pyval) \<and>
   length [1, 0, 0 :: int] = 3 \<and>
   (\<exists>self. TranslationalSymmetry_init id shift (*) plate [1, 0, 0] (PyInt 2 :: unit pyval)
           = (Inr self, plate\<lparr>nb_matrices_to_keep := nb_matrices_to_keep plate * 2\<rparr>) \<and>
         length (subbodies self) = 3 \<and>
         subbodies self ! 0 = plate\<lparr>nb_matrices_to_keep := nb_matrices_to_keep plate * 2\<rparr> \<and>
         name (subbodies self ! 1) \<noteq> name plate \<and>
         name (subbodies self ! 2) \<noteq> name plate)"
proof -
  have h: "isinstance_int (PyInt 2 :: unit pyval)" "1 \<le> int_value (PyInt 2 :: unit pyval)"
    "length [1, 0, 0 :: int] = 3"
    by simp_all
  from translation_generators [OF h, of id shift "(*)" plate]
  obtain self where
    a: "TranslationalSymmetry_init id shift (*) plate [1, 0, 0] (PyInt 2 :: unit pyval)
           = (Inr self, plate\<lparr>nb_matrices_to_keep := nb_matrices_to_keep plate * 2\<rparr>)"
    and b: "length (subbodies self) = 3"
      "subbodies self ! 0 = plate\<lparr>nb_matrices_to_keep := nb_matrices_to_keep plate * 2\<rparr>"
    and c: "\<forall>i. 1 \<le> i \<and> i \<le> 2 \<longrightarrow> name (subbodies self ! nat i) \<noteq> name plate"
    by auto
  from c have "name (subbodies self ! nat 1) \<noteq> name plate" "name (subbodies self ! nat 2) \<noteq> name plate"
    by (metis one_le_numeral order_refl, metis one_le_numeral order_refl)
  then show ?thesis
    using h a b by auto
qed

text \<open>
  C4, as the module has it. A repetition count that is not an integer, or an integer below
  1, fails the assertions at the head of the constructor: the construction raises
  \<^verbatim>\<open>AssertionError\<close>, returns no composite and leaves the slice as it was (the first
  mutation comes after the assertions).
\<close>

theorem translation_init_rejects:
  "\<not> isinstance_int nb_repetitions \<or> int_value nb_repetitions < 1 \<Longrightarrow>
   TranslationalSymmetry_init copy translate mul body_slice translation nb_repetitions
     = (Inl AssertionError, body_slice)"
  by (auto simp: TranslationalSymmetry_init_def)

text \<open>The counts 0 and -3, and a count that is no integer.\<close>

theorem translation_init_rejects_witness:
  "TranslationalSymmetry_init id shift (*) plate [1, 0, 0] (PyInt 0 :: unit pyval)
     = (Inl AssertionError, plate) \<and>
   TranslationalSymmetry_init id shift (*) plate [1, 0, 0] (PyInt (- 3) :: unit pyval)
     = (Inl AssertionError, plate) \<and>
   TranslationalSymmetry_init id shift (*) plate [1, 0, 0] (PyObject ())
     = (Inl AssertionError, plate)"
  using translation_init_rejects [of "PyInt 0 :: unit pyval" id shift "(*)" plate "[1, 0, 0]"]
    translation_init_rejects [of "PyInt (- 3) :: unit pyval" id shift "(*)" plate "[1, 0, 0]"]
    translation_init_rejects [of "PyObject ()" id shift "(*)" plate "[1, 0, 0]"]
  by simp

text \<open>
  C4, as the specification has it, fails on the kind of the error: with a count of 0 the
  error raised is not \<^verbatim>\<open>InvalidSymmetryArgument\<close>.
\<close>

theorem translation_init_zero_not_InvalidSymmetryArgument:
  "fst (TranslationalSymmetry_init id shift (*) plate [1, 0, 0] (PyInt 0 :: unit pyval))
     \<noteq> Inl InvalidSymmetryArgument"
  by (simp add: TranslationalSymmetry_init_def)

subsection \<open>The degrees of freedom of a translation composite\<close>

text \<open>
  Whatever the valid construction, a degree of freedom of the slice is stored under its
  renamed key as \<open>n\<close> copies of its vector, \<open>n\<close> the repetition count, while the
  composite has \<open>n + 1\<close> generators.
\<close>

lemma map_of_fold_update:
  "map_of (fold (\<lambda>(name, dof) d. AList.update (g name) (h dof) d) xs d)
     = fold (\<lambda>(name, dof) m. m(g name \<mapsto> h dof)) xs (map_of d)"
  by (induction xs arbitrary: d) (auto simp: update_conv' split: prod.splits)

lemma fold_upd_other:
  "\<forall>(name, dof)\<in>set xs. g name \<noteq> key \<Longrightarrow>
   fold (\<lambda>(name, dof) m. m(g name \<mapsto> h dof)) xs m key = m key"
  by (induction xs arbitrary: m) (auto split: prod.splits)

lemma fold_upd_distinct:
  assumes "distinct (map fst xs)" and "inj g" and "(key, dof) \<in> set xs"
  shows "fold (\<lambda>(name, dof) m. m(g name \<mapsto> h dof)) xs m (g key) = Some (h dof)"
  using assms
proof (induction xs arbitrary: m)
  case Nil
  then show ?case by simp
next
  case (Cons x xs)
  obtain k v where x: "x = (k, v)"
    by (cases x)
  show ?case
  proof (cases "(key, dof) \<in> set xs")
    case True
    with Cons show ?thesis
      by (simp add: x)
  next
    case False
    with Cons.prems have same: "k = key" "v = dof"
      by (auto simp: x)
    have "\<forall>(name', dof')\<in>set xs. g name' \<noteq> g key"
      using Cons.prems(1,2) same by (auto simp: x inj_eq rev_image_eqI)
    then have "fold (\<lambda>(name, dof) m. m(g name \<mapsto> h dof)) xs (m(g key \<mapsto> h dof)) (g key)
                 = (m(g key \<mapsto> h dof)) (g key)"
      by (rule fold_upd_other)
    then show ?thesis
      by (simp only: x same List.fold.simps(2) prod.case comp_apply fun_upd_same)
  qed
qed

lemma translation_dofs_copies:
  assumes valid: "isinstance_int nb_repetitions" "1 \<le> int_value nb_repetitions"
      "length translation = 3"
    and keys: "distinct (map fst (dofs body_slice))"
    and dof: "(key, dof) \<in> set (dofs body_slice)"
  shows "\<exists>self. fst (TranslationalSymmetry_init copy translate mul body_slice translation
                    nb_repetitions) = Inr self \<and>
           length (subbodies self) = nat (int_value nb_repetitions) + 1 \<and>
           map_of (dofs self) (''translated_'' @ key)
             = Some (concat (replicate (nat (int_value nb_repetitions)) dof)) \<and>
           length (concat (replicate (nat (int_value nb_repetitions)) dof))
             = nat (int_value nb_repetitions) * length dof"
proof -
  have inj: "inj (\<lambda>name. ''translated_'' @ name)"
    by (simp add: inj_def)
  have keys': "distinct (map fst (dofs (body_slice\<lparr>nb_matrices_to_keep := k\<rparr>)))" for k
    using keys by simp
  have len: "length (concat (replicate n dof)) = n * length dof" for n
    by (induction n) simp_all
  show ?thesis
    unfolding translation_init_subbodies [OF valid]
    using valid(2) fold_upd_distinct [OF keys inj dof, of "\<lambda>dof. concat (replicate (nat (int_value nb_repetitions)) dof)" Map.empty]
    by (simp add: map_of_fold_update len)
qed

text \<open>
  C3. With two repetitions the composite has three generators, and the degree of freedom
  \<^verbatim>\<open>heave\<close> of the plate, a vector of length 2, is stored under \<^verbatim>\<open>translated_heave\<close> as two
  copies of the vector (length 4): \<^verbatim>\<open>[dof]*nb_repetitions\<close> counts the repetitions, not
  the generators, so the third generator has no segment.
\<close>

theorem translation_dofs_two_repetitions:
  "\<exists>self. fst (TranslationalSymmetry_init id shift (*) plate [1, 0, 0] (PyInt 2 :: unit pyval))
            = Inr self \<and>
          length (subbodies self) = 3 \<and>
          map_of (dofs plate) ''heave'' = Some [1, 2] \<and>
          map_of (dofs self) ''translated_heave'' = Some [1, 2, 1, 2]"
proof -
  have "isinstance_int (PyInt 2 :: unit pyval)" "1 \<le> int_value (PyInt 2 :: unit pyval)"
    "length [1, 0, 0 :: int] = 3"
    by simp_all
  from translation_init_subbodies [OF this, of id shift "(*)" plate]
  show ?thesis
    by (simp add: plate_def numeral_2_eq_2)
qed

section \<open>Writing and copying blocks\<close>

lemma setitem_window:
  assumes "indices (fst idx) (fst (shape A)) = (r0, r1)"
    and "indices (snd idx) (snd (shape A)) = (c0, c1)"
    and "shape B = (r1 - r0, c1 - c0)"
  shows "\<exists>A'. setitem astype A idx B = Inr A' \<and> shape A' = shape A \<and> dtype A' = dtype A \<and>
     (\<forall>i j. item A' i j =
        (if r0 \<le> i \<and> i < r1 \<and> c0 \<le> j \<and> j < c1
         then map_option (cast astype (dtype B) (dtype A)) (item B (i - r0) (j - c0))
         else item A i j))"
  using assms by (simp add: setitem_def selected_def)

lemma getitem_window:
  assumes "indices (fst idx) (fst (shape A)) = (r0, r1)"
    and "indices (snd idx) (snd (shape A)) = (c0, c1)"
  shows "shape (getitem A idx) = (r1 - r0, c1 - c0)"
    and "dtype (getitem A idx) = dtype A"
    and "item (getitem A idx) i j =
          (if i < r1 - r0 \<and> j < c1 - c0 then item A (r0 + i) (c0 + j) else None)"
  using assms by (simp_all add: getitem_def)

lemma cast_same: "cast astype d d = (\<lambda>x. x)"
  by (simp add: fun_eq_iff cast_def)

lemma copy_window:
  assumes dst: "indices (fst idx) (fst (shape A)) = (r0, r1)"
      "indices (snd idx) (snd (shape A)) = (c0, c1)"
    and src: "indices (fst idx') (fst (shape A)) = (r0', r1')"
      "indices (snd idx') (snd (shape A)) = (c0', c1')"
    and same: "r1' - r0' = r1 - r0" "c1' - c0' = c1 - c0"
  shows "\<exists>A'. setitem astype A idx (getitem A idx') = Inr A' \<and>
     shape A' = shape A \<and> dtype A' = dtype A \<and>
     (\<forall>i j. item A' i j =
        (if r0 \<le> i \<and> i < r1 \<and> c0 \<le> j \<and> j < c1
         then item A (r0' + (i - r0)) (c0' + (j - c0))
         else item A i j))"
proof -
  have shp: "shape (getitem A idx') = (r1 - r0, c1 - c0)"
    using getitem_window(1) [OF src] same by simp
  from setitem_window [OF dst shp, of astype]
  obtain A' where A': "setitem astype A idx (getitem A idx') = Inr A'"
      "shape A' = shape A" "dtype A' = dtype A"
      "\<And>i j. item A' i j =
        (if r0 \<le> i \<and> i < r1 \<and> c0 \<le> j \<and> j < c1
         then map_option (cast astype (dtype (getitem A idx')) (dtype A))
                (item (getitem A idx') (i - r0) (j - c0))
         else item A i j)"
    by blast
  have id: "map_option (cast astype (dtype (getitem A idx')) (dtype A)) = (\<lambda>x. x)"
    by (simp add: getitem_window(2) [OF src] cast_same fun_eq_iff option.map_ident)
  have "item A' i j =
        (if r0 \<le> i \<and> i < r1 \<and> c0 \<le> j \<and> j < c1
         then item A (r0' + (i - r0)) (c0' + (j - c0))
         else item A i j)" for i j
    unfolding A'(4) id getitem_window(3) [OF src] using same by auto
  with A'(1-3) show ?thesis
    by blast
qed

subsection \<open>Arithmetic of block indices\<close>

lemma in_block_iff: "0 < f \<Longrightarrow> (k * f \<le> q \<and> q < Suc k * f) = (q div f = k)"
proof
  assume "0 < f" "k * f \<le> q \<and> q < Suc k * f"
  then show "q div f = k"
    by (intro div_nat_eqI) (simp_all add: mult.commute)
next
  assume f: "0 < f" and "q div f = k"
  then have "k * f \<le> q" "q < f + k * f"
    using div_times_less_eq_dividend [of q f] dividend_less_div_times [of f q] by auto
  then show "k * f \<le> q \<and> q < Suc k * f"
    by simp
qed

lemma mod_in_block: "q div f = k \<Longrightarrow> q mod f = q - k * (f :: nat)"
  using minus_div_mult_eq_mod [of q f] by simp

lemma block_le: "k < m \<Longrightarrow> Suc k * f \<le> m * (f :: nat)"
  by (intro mult_le_mono1) simp

subsection \<open>One step of the assembly\<close>

lemma toeplitz_upto_start: "np_empty (m * f, m * f) complex64 = toeplitz_upto astype f m K 0 0"
  by (simp add: np_empty_def toeplitz_upto_def)

lemma toeplitz_upto_roll: "toeplitz_upto astype f m K i m = toeplitz_upto astype f m K (Suc i) 0"
proof -
  have "q div f < m" if "q < m * f" for q
    using that by (simp add: less_mult_imp_div_less)
  then show ?thesis
    by (auto simp: toeplitz_upto_def fun_eq_iff)
qed

lemma toeplitz_first_row_step:
  assumes rows: "indices (fst idx) (m * f) = (0, f)"
    and cols: "indices (snd idx) (m * f) = (k * f, Suc k * f)"
    and k: "k < m" and shp: "shape (K k) = (f, f)"
  shows "setitem astype (toeplitz_upto astype f m K 0 k) idx (K k)
           = Inr (toeplitz_upto astype f m K 0 (Suc k))"
proof -
  let ?A = "toeplitz_upto astype f m K 0 k"
  have A: "shape ?A = (m * f, m * f)" "dtype ?A = complex64"
    by (simp_all add: toeplitz_upto_def)
  have r: "indices (fst idx) (fst (shape ?A)) = (0, f)"
    and c: "indices (snd idx) (snd (shape ?A)) = (k * f, Suc k * f)"
    using rows cols by (simp_all add: A)
  have s: "shape (K k) = (f - 0, Suc k * f - k * f)"
    using shp by simp
  from setitem_window [OF r c s, of astype]
  obtain A' where A': "setitem astype ?A idx (K k) = Inr A'"
      "shape A' = (m * f, m * f)" "dtype A' = complex64"
      "\<And>p q. item A' p q =
        (if p < f \<and> k * f \<le> q \<and> q < Suc k * f
         then map_option (cast astype (dtype (K k)) complex64) (item (K k) p (q - k * f))
         else item ?A p q)"
    by (auto simp: A)
  have "item A' p q = item (toeplitz_upto astype f m K 0 (Suc k)) p q" for p q
  proof (cases "0 < f")
    case False
    then show ?thesis
      by (simp add: A'(4) toeplitz_upto_def)
  next
    case f: True
    have le: "Suc k * f \<le> m * f" "f \<le> m * f"
      using block_le [OF k, of f] k by simp_all
    show ?thesis
    proof (cases "p < f \<and> k * f \<le> q \<and> q < Suc k * f")
      case True
      then have "p div f = 0" "q div f = k" "p mod f = p" "q mod f = q - k * f"
        using in_block_iff [OF f, of k q] mod_in_block [of q f k] by simp_all
      moreover from True le have "p < m * f" "q < m * f"
        by linarith+
      ultimately show ?thesis
        using True by (simp add: A'(4) toeplitz_upto_def toeplitz_entry_def)
    next
      case False
      have "\<not> (p div f = 0 \<and> q div f = k)" if "p < m * f"
        using False in_block_iff [OF f, of k q] in_block_iff [OF f, of 0 p] by auto
      then show ?thesis
        using False by (auto simp: A'(4) toeplitz_upto_def less_Suc_eq)
    qed
  qed
  then have "A' = toeplitz_upto astype f m K 0 (Suc k)"
    using A'(2,3) by (intro ndarray.equality) (auto simp: toeplitz_upto_def fun_eq_iff)
  with A'(1) show ?thesis
    by simp
qed

lemma toeplitz_copy_step:
  assumes rows: "indices (fst idx) (m * f) = (i * f, Suc i * f)"
    and cols: "indices (snd idx) (m * f) = (j * f, Suc j * f)"
    and rows': "indices (fst idx') (m * f) = (0, f)"
    and cols': "indices (snd idx') (m * f) = (d * f, Suc d * f)"
    and d: "d = nat \<bar>int j - int i\<bar>"
    and i: "1 \<le> i" "i < m" and j: "j < m"
  shows "setitem astype (toeplitz_upto astype f m K i j) idx
           (getitem (toeplitz_upto astype f m K i j) idx')
           = Inr (toeplitz_upto astype f m K i (Suc j))"
proof -
  let ?A = "toeplitz_upto astype f m K i j"
  have A: "shape ?A = (m * f, m * f)" "dtype ?A = complex64"
    by (simp_all add: toeplitz_upto_def)
  have r: "indices (fst idx) (fst (shape ?A)) = (i * f, Suc i * f)"
    and c: "indices (snd idx) (snd (shape ?A)) = (j * f, Suc j * f)"
    and r': "indices (fst idx') (fst (shape ?A)) = (0, f)"
    and c': "indices (snd idx') (snd (shape ?A)) = (d * f, Suc d * f)"
    using rows cols rows' cols' by (simp_all add: A)
  have same: "f - 0 = Suc i * f - i * f" "Suc d * f - d * f = Suc j * f - j * f"
    by simp_all
  from copy_window [OF r c r' c' same, of astype]
  obtain A' where A': "setitem astype ?A idx (getitem ?A idx') = Inr A'"
      "shape A' = (m * f, m * f)" "dtype A' = complex64"
      "\<And>p q. item A' p q =
        (if i * f \<le> p \<and> p < Suc i * f \<and> j * f \<le> q \<and> q < Suc j * f
         then item ?A (p - i * f) (d * f + (q - j * f))
         else item ?A p q)"
    by (auto simp: A)
  have dm: "d < m"
    using d i j by linarith
  have "item A' p q = item (toeplitz_upto astype f m K i (Suc j)) p q" for p q
  proof (cases "0 < f")
    case False
    then show ?thesis
      by (simp add: A'(4) toeplitz_upto_def)
  next
    case f: True
    have le: "Suc i * f \<le> m * f" "Suc j * f \<le> m * f" "Suc d * f \<le> m * f" "f \<le> m * f"
      using block_le [OF i(2), of f] block_le [OF j, of f] block_le [OF dm, of f] i by simp_all
    show ?thesis
    proof (cases "i * f \<le> p \<and> p < Suc i * f \<and> j * f \<le> q \<and> q < Suc j * f")
      case True
      let ?p = "p - i * f" and ?q = "d * f + (q - j * f)"
      from True have pq: "p div f = i" "q div f = j" "p mod f = p - i * f" "q mod f = q - j * f"
        using in_block_iff [OF f, of i p] in_block_iff [OF f, of j q]
          mod_in_block [of p f i] mod_in_block [of q f j] by simp_all
      from True have small: "?p < f" "d * f \<le> ?q \<and> ?q < Suc d * f"
        by auto
      then have src: "?p div f = 0" "?q div f = d" "?p mod f = p mod f" "?q mod f = q mod f"
        using in_block_iff [OF f, of d ?q] mod_in_block [of ?q f d] pq by simp_all
      from small le have "?p < m * f" "?q < m * f"
        by linarith+
      then have "item ?A ?p ?q = toeplitz_entry astype f K ?p ?q"
        using i(1) by (simp add: toeplitz_upto_def src(1))
      also have "\<dots> = map_option (cast astype (dtype (K d)) complex64)
                         (item (K d) (p mod f) (q mod f))"
        unfolding toeplitz_entry_def src by (simp add: Let_def)
      also have "\<dots> = toeplitz_entry astype f K p q"
        unfolding toeplitz_entry_def pq(1,2) d by (simp add: Let_def)
      also from True le have "p < m * f" "q < m * f"
        by linarith+
      then have "toeplitz_entry astype f K p q = item (toeplitz_upto astype f m K i (Suc j)) p q"
        by (simp add: toeplitz_upto_def pq(1,2))
      finally show ?thesis
        using True by (simp add: A'(4))
    next
      case False
      have "\<not> (p div f = i \<and> q div f = j)"
        using False in_block_iff [OF f, of i p] in_block_iff [OF f, of j q] by auto
      then show ?thesis
        using False by (auto simp: A'(4) toeplitz_upto_def less_Suc_eq)
    qed
  qed
  then have "A' = toeplitz_upto astype f m K i (Suc j)"
    using A'(2,3) by (intro ndarray.equality) (auto simp: toeplitz_upto_def fun_eq_iff)
  with A'(1) show ?thesis
    by simp
qed

lemma toeplitz_block:
  assumes rows: "indices (fst idx) (m * f) = (i * f, Suc i * f)"
    and cols: "indices (snd idx) (m * f) = (j * f, Suc j * f)"
    and i: "i < m" and j: "j < m" and shp: "shape (K (nat \<bar>int j - int i\<bar>)) = (f, f)"
  shows "getitem (toeplitz_upto astype f m K m 0) idx
           = ndarray_astype astype complex64 (K (nat \<bar>int j - int i\<bar>))"
proof -
  let ?A = "toeplitz_upto astype f m K m 0"
  let ?d = "nat \<bar>int j - int i\<bar>"
  have A: "shape ?A = (m * f, m * f)" "dtype ?A = complex64"
    by (simp_all add: toeplitz_upto_def)
  have r: "indices (fst idx) (fst (shape ?A)) = (i * f, Suc i * f)"
    and c: "indices (snd idx) (snd (shape ?A)) = (j * f, Suc j * f)"
    using rows cols by (simp_all add: A)
  note g = getitem_window [OF r c]
  have "item (getitem ?A idx) a b = item (ndarray_astype astype complex64 (K ?d)) a b" for a b
  proof (cases "a < f \<and> b < f")
    case False
    then show ?thesis
      by (auto simp: g(3) ndarray_astype_def shp)
  next
    case True
    then have f: "0 < f"
      by simp
    let ?p = "i * f + a" and ?q = "j * f + b"
    from True have "i * f \<le> ?p \<and> ?p < Suc i * f" "j * f \<le> ?q \<and> ?q < Suc j * f"
      by simp_all
    then have pq: "?p div f = i" "?q div f = j" "?p mod f = a" "?q mod f = b"
      using in_block_iff [OF f, of i ?p] in_block_iff [OF f, of j ?q]
        mod_in_block [of ?p f i] mod_in_block [of ?q f j] by simp_all
    from True have "?p < m * f" "?q < m * f"
      using block_le [OF i, of f] block_le [OF j, of f] by simp_all
    then have "item ?A ?p ?q = toeplitz_entry astype f K ?p ?q"
      using i by (simp add: toeplitz_upto_def pq(1))
    also have "\<dots> = map_option (cast astype (dtype (K ?d)) complex64) (item (K ?d) a b)"
      unfolding toeplitz_entry_def pq by (simp add: Let_def)
    finally show ?thesis
      using True by (simp add: g(3) ndarray_astype_def shp)
  qed
  then show ?thesis
    by (intro ndarray.equality) (auto simp: g(1,2) A ndarray_astype_def shp fun_eq_iff)
qed

subsection \<open>Loops whose states are known in advance\<close>

lemma for_each_chain:
  assumes "\<And>k. k < length xs \<Longrightarrow> body (xs ! k) (g k) = Inr (g (Suc k))"
  shows "for_each body xs (g 0) = Inr (g (length xs))"
  using assms
proof (induction xs arbitrary: g)
  case Nil
  then show ?case by simp
next
  case (Cons x xs)
  from Cons.prems [of 0] have first: "body x (g 0) = Inr (g (Suc 0))"
    by simp
  have "for_each body xs ((g \<circ> Suc) 0) = Inr ((g \<circ> Suc) (length xs))"
  proof (rule Cons.IH)
    fix k assume "k < length xs"
    then show "body (xs ! k) ((g \<circ> Suc) k) = Inr ((g \<circ> Suc) (Suc k))"
      using Cons.prems [of "Suc k"] by simp
  qed
  with first show ?case
    by simp
qed

section \<open>Generators of equal size\<close>

lemma map_upt_shift: "map g [Suc 0 ..< Suc m] = map (\<lambda>i. g (Suc i)) [0 ..< m]"
proof -
  have "[Suc 0 ..< Suc m] = map Suc [0 ..< m]"
    by (simp only: map_Suc_upt)
  then show ?thesis
    by (simp only: map_map o_def)
qed

lemma accumulate_from_uniform:
  "accumulate_from acc (replicate m f) = map (\<lambda>i. acc + Suc i * f) [0 ..< m]"
proof (induction m arbitrary: acc)
  case 0
  then show ?case by simp
next
  case (Suc m)
  have "map (\<lambda>i. acc + Suc i * f) [0 ..< Suc m]
          = (acc + f) # map (\<lambda>i. acc + Suc (Suc i) * f) [0 ..< m]"
    by (simp add: upt_conv_Cons map_upt_shift del: upt_Suc)
  then show ?case
    using Suc.IH [of "acc + f"] by (simp add: add.assoc del: upt_Suc)
qed

lemma uniform_faces:
  "\<forall>b\<in>set bs. nb_faces b = f \<Longrightarrow> map nb_faces bs = replicate (length bs) f"
  by (induction bs) simp_all

lemma offsets_uniform:
  assumes "\<forall>b\<in>set bs. nb_faces b = f"
  shows "accumulate (0 # map nb_faces bs) = map (\<lambda>i. i * f) [0 ..< Suc (length bs)]"
proof -
  have "map (\<lambda>i. i * f) [0 ..< Suc (length bs)] = 0 # map (\<lambda>i. Suc i * f) [0 ..< length bs]"
    by (simp add: upt_conv_Cons map_upt_shift del: upt_Suc)
  then show ?thesis
    using accumulate_from_uniform [of 0 "length bs" f]
    by (simp add: accumulate_def uniform_faces [OF assms] del: upt_Suc)
qed

lemma collection_nb_faces_uniform:
  assumes "\<forall>b\<in>set (subbodies self). nb_faces b = f"
  shows "collection_nb_faces self = length (subbodies self) * f"
  by (simp add: collection_nb_faces_def uniform_faces [OF assms] sum_list_replicate)

lemma matrix_blocks_uniform:
  fixes f m :: nat
  defines "blocks \<equiv> matrix_blocks (map (\<lambda>i. i * f) [0 ..< Suc m])"
  shows "length blocks = m"
    and "i < m \<Longrightarrow> length (blocks ! i) = m"
    and "i < m \<Longrightarrow> j < m \<Longrightarrow>
           blocks ! i ! j = (Slice (Some (i * f)) (Some (Suc i * f)),
                             Slice (Some (j * f)) (Some (Suc j * f)))"
proof -
  let ?offsets = "map (\<lambda>i. i * f) [0 ..< Suc m]"
  have len: "length (zip ?offsets (tl ?offsets)) = m"
    by simp
  have nth: "zip ?offsets (tl ?offsets) ! k = (k * f, Suc k * f)" if "k < m" for k
    using that by (simp add: nth_tl nth_append del: upt_Suc)
  show "length blocks = m"
    unfolding blocks_def matrix_blocks_def using len by simp
  show "length (blocks ! i) = m" if "i < m"
    unfolding blocks_def matrix_blocks_def using len that by (simp del: upt_Suc)
  show "blocks ! i ! j = (Slice (Some (i * f)) (Some (Suc i * f)),
                          Slice (Some (j * f)) (Some (Suc j * f)))" if "i < m" "j < m"
    unfolding blocks_def matrix_blocks_def using len that nth
    by (simp del: upt_Suc)
qed

lemma block_indices:
  "k < m \<Longrightarrow> indices (Slice (Some (k * f)) (Some (Suc k * f))) (m * f) = (k * f, Suc k * f)"
  using block_le [of k m f] by (simp add: min_def)

lemma uniform_block:
  assumes uni: "\<forall>b\<in>set bs. nb_faces b = f"
    and i: "i < length bs" and j: "j < length bs"
    and shp: "shape (K (nat \<bar>int j - int i\<bar>)) = (f, f)"
  shows "getitem (toeplitz_upto astype f (length bs) K (length bs) 0)
           (matrix_blocks (accumulate (0 # map nb_faces bs)) ! i ! j)
           = ndarray_astype astype complex64 (K (nat \<bar>int j - int i\<bar>))"
proof -
  let ?m = "length bs"
  let ?block = "matrix_blocks (accumulate (0 # map nb_faces bs)) ! i ! j"
  have blk: "?block = (Slice (Some (i * f)) (Some (Suc i * f)), Slice (Some (j * f)) (Some (Suc j * f)))"
    unfolding offsets_uniform [OF uni] by (rule matrix_blocks_uniform(3) [OF i j])
  have rows: "indices (fst ?block) (?m * f) = (i * f, Suc i * f)"
    and cols: "indices (snd ?block) (?m * f) = (j * f, Suc j * f)"
    unfolding blk using block_indices [OF i, of f] block_indices [OF j, of f] by simp_all
  show ?thesis
    by (rule toeplitz_block [where K = K, OF rows cols i j shp])
qed

lemma quarter_blocks:
  "indices (fst (top_left (2 * f))) (2 * f) = (0 * f, Suc 0 * f)"
  "indices (snd (top_left (2 * f))) (2 * f) = (0 * f, Suc 0 * f)"
  "indices (fst (top_right (2 * f))) (2 * f) = (0 * f, Suc 0 * f)"
  "indices (snd (top_right (2 * f))) (2 * f) = (1 * f, Suc 1 * f)"
  "indices (fst (bottom_left (2 * f))) (2 * f) = (1 * f, Suc 1 * f)"
  "indices (snd (bottom_left (2 * f))) (2 * f) = (0 * f, Suc 0 * f)"
  "indices (fst (bottom_right (2 * f))) (2 * f) = (1 * f, Suc 1 * f)"
  "indices (snd (bottom_right (2 * f))) (2 * f) = (1 * f, Suc 1 * f)"
  by (simp_all add: top_left_def top_right_def bottom_left_def bottom_right_def)

lemma selected_quarters:
  "selected (top_left (2 * f)) (2 * f, 2 * f) i j = (i < f \<and> j < f)"
  "selected (top_right (2 * f)) (2 * f, 2 * f) i j = (i < f \<and> f \<le> j \<and> j < 2 * f)"
  "selected (bottom_left (2 * f)) (2 * f, 2 * f) i j = (f \<le> i \<and> i < 2 * f \<and> j < f)"
  "selected (bottom_right (2 * f)) (2 * f, 2 * f) i j = (f \<le> i \<and> i < 2 * f \<and> f \<le> j \<and> j < 2 * f)"
  by (simp_all add: selected_def top_left_def top_right_def bottom_left_def bottom_right_def)

section \<open>What the accelerated branches return\<close>

text \<open>
  For generators of equal size and a kernel that returns arrays of the right shape, both
  accelerated branches return the matrices in closed form and the list of the evaluations
  of the kernel they made.
\<close>

lemma translation_accelerated:
  fixes build_matrices ::
    "('g, 's) FloatingBody \<Rightarrow> ('g, 's) FloatingBody \<Rightarrow> 'k \<Rightarrow> 'a ndarray \<times> 'a ndarray"
  assumes ne: "subbodies self \<noteq> []"
    and uni: "\<forall>b\<in>set (subbodies self). nb_faces b = f"
    and K: "kernel_shapes build_matrices"
  shows "TranslationalSymmetry_build_matrices build_matrices assemble astype self Self False kwargs =
     Inr ((toeplitz_upto astype f (length (subbodies self))
             (\<lambda>d. fst (build_matrices (subbodies self ! 0) (subbodies self ! d) kwargs))
             (length (subbodies self)) 0,
           toeplitz_upto astype f (length (subbodies self))
             (\<lambda>d. snd (build_matrices (subbodies self ! 0) (subbodies self ! d) kwargs))
             (length (subbodies self)) 0),
          map (\<lambda>b. (subbodies self ! 0, b, kwargs)) (subbodies self))"
proof -
  let ?subs = "subbodies self"
  let ?m = "length ?subs"
  let ?KS = "\<lambda>d. fst (build_matrices (?subs ! 0) (?subs ! d) kwargs)"
  let ?KV = "\<lambda>d. snd (build_matrices (?subs ! 0) (?subs ! d) kwargs)"
  let ?blocks = "matrix_blocks (map (\<lambda>i. i * f) [0 ..< Suc ?m])"
  let ?S = "toeplitz_upto astype f ?m ?KS"
  let ?V = "toeplitz_upto astype f ?m ?KV"
  have m: "0 < ?m"
    using ne by simp
  note mb = matrix_blocks_uniform [where m = ?m and f = f]
  have block: "indices (fst (?blocks ! i ! j)) (?m * f) = (i * f, Suc i * f)"
      "indices (snd (?blocks ! i ! j)) (?m * f) = (j * f, Suc j * f)"
    if "i < ?m" "j < ?m" for i j
    using that block_indices [of i ?m f] block_indices [of j ?m f]
    by (simp_all add: mb(3) del: upt_Suc)
  have shapes: "shape (?KS d) = (f, f)" "shape (?KV d) = (f, f)" if "d < ?m" for d
    using K uni that m by (simp_all add: kernel_shapes_def)

  \<comment> \<open>the first row of blocks\<close>
  define g where "g k = ((?S 0 k, ?V 0 k), map (\<lambda>b. (?subs ! 0, b, kwargs)) (take k ?subs))" for k
  let ?xs = "zip (?blocks ! 0) ?subs"
  have len_xs: "length ?xs = ?m"
    using m by (simp add: mb(2) del: upt_Suc)
  have first_step: "first_row_step build_matrices astype self kwargs (?xs ! k) (g k) = Inr (g (Suc k))"
    if k: "k < ?m" for k
  proof -
    have xs: "?xs ! k = (?blocks ! 0 ! k, ?subs ! k)"
      using k m by (simp add: mb(2) del: upt_Suc)
    have rows: "indices (fst (?blocks ! 0 ! k)) (?m * f) = (0, f)"
      using block(1) [OF m k] by (simp del: upt_Suc)
    have S: "setitem astype (?S 0 k) (?blocks ! 0 ! k) (?KS k) = Inr (?S 0 (Suc k))"
      by (rule toeplitz_first_row_step [where K = ?KS, OF rows block(2) [OF m k] k shapes(1) [OF k]])
    have V: "setitem astype (?V 0 k) (?blocks ! 0 ! k) (?KV k) = Inr (?V 0 (Suc k))"
      by (rule toeplitz_first_row_step [where K = ?KV, OF rows block(2) [OF m k] k shapes(2) [OF k]])
    show ?thesis
      unfolding first_row_step_def xs g_def
      using m k S V
      by (simp add: index_def bind_result_def assign_both_def Let_def take_Suc_conv_app_nth
            del: upt_Suc)
  qed
  have first: "for_each (first_row_step build_matrices astype self kwargs) ?xs (g 0) = Inr (g ?m)"
    using for_each_chain [of ?xs "first_row_step build_matrices astype self kwargs" g]
      first_step len_xs by (simp del: upt_Suc)
  have g0: "g 0 = ((np_empty (?m * f, ?m * f) complex64, np_empty (?m * f, ?m * f) complex64), [])"
    by (simp add: g_def toeplitz_upto_start [symmetric])
  have gm: "g ?m = ((?S 1 0, ?V 1 0), map (\<lambda>b. (?subs ! 0, b, kwargs)) ?subs)"
    by (simp add: g_def toeplitz_upto_roll)

  \<comment> \<open>the copies\<close>
  have inner: "for_each (\<lambda>j. copy_step astype ?blocks i j) [0 ..< length (?blocks ! i)] (?S i 0, ?V i 0)
                 = Inr (?S (Suc i) 0, ?V (Suc i) 0)"
    if i: "1 \<le> i" "i < ?m" for i
  proof -
    have step: "copy_step astype ?blocks i j (?S i j, ?V i j) = Inr (?S i (Suc j), ?V i (Suc j))"
      if j: "j < ?m" for j
    proof -
      let ?d = "nat \<bar>int j - int i\<bar>"
      have d: "?d < ?m"
        using i j by linarith
      have rows': "indices (fst (?blocks ! 0 ! ?d)) (?m * f) = (0, f)"
        using block(1) [OF m d] by (simp del: upt_Suc)
      have S: "setitem astype (?S i j) (?blocks ! i ! j) (getitem (?S i j) (?blocks ! 0 ! ?d))
                 = Inr (?S i (Suc j))"
        by (rule toeplitz_copy_step [OF block(1) [OF i(2) j] block(2) [OF i(2) j] rows'
              block(2) [OF m d] refl i j])
      have V: "setitem astype (?V i j) (?blocks ! i ! j) (getitem (?V i j) (?blocks ! 0 ! ?d))
                 = Inr (?V i (Suc j))"
        by (rule toeplitz_copy_step [OF block(1) [OF i(2) j] block(2) [OF i(2) j] rows'
              block(2) [OF m d] refl i j])
      show ?thesis
        unfolding copy_step_def using S V by (simp add: bind_result_def del: upt_Suc)
    qed
    have "for_each (\<lambda>j. copy_step astype ?blocks i j) [0 ..< ?m] ((\<lambda>j. (?S i j, ?V i j)) 0)
            = Inr ((\<lambda>j. (?S i j, ?V i j)) (length [0 ..< ?m]))"
      by (rule for_each_chain) (simp add: step del: upt_Suc)
    then show ?thesis
      using i by (simp add: mb(2) toeplitz_upto_roll del: upt_Suc)
  qed
  have outer: "for_each (\<lambda>i. for_each (\<lambda>j. copy_step astype ?blocks i j) [0 ..< length (?blocks ! i)])
                 [1 ..< ?m] (?S 1 0, ?V 1 0) = Inr (?S ?m 0, ?V ?m 0)"
  proof -
    have "for_each (\<lambda>i. for_each (\<lambda>j. copy_step astype ?blocks i j) [0 ..< length (?blocks ! i)])
            [1 ..< ?m] ((\<lambda>k. (?S (Suc k) 0, ?V (Suc k) 0)) 0)
            = Inr ((\<lambda>k. (?S (Suc k) 0, ?V (Suc k) 0)) (length [1 ..< ?m]))"
      by (rule for_each_chain) (simp add: inner del: upt_Suc)
    then show ?thesis
      using m by (simp del: upt_Suc)
  qed
  have blocks_ne: "?blocks \<noteq> []"
    using mb(1) m by (metis length_0_conv less_numeral_extra(3))
  show ?thesis
    unfolding TranslationalSymmetry_build_matrices_def
    using m first outer blocks_ne
    by (simp add: Let_def collection_nb_faces_uniform [OF uni] offsets_uniform [OF uni]
          index_def mb(1) bind_result_def g0 gm del: upt_Suc)
qed

lemma reflection_accelerated:
  fixes build_matrices ::
    "('g, 's) FloatingBody \<Rightarrow> ('g, 's) FloatingBody \<Rightarrow> 'k \<Rightarrow> 'a ndarray \<times> 'a ndarray"
  assumes len: "length (subbodies self) = 2"
    and uni: "\<forall>b\<in>set (subbodies self). nb_faces b = f"
    and K: "kernel_shapes build_matrices"
  shows "ReflectionSymmetry_build_matrices build_matrices assemble astype self Self False kwargs =
     Inr ((toeplitz_upto astype f 2
             (\<lambda>d. fst (build_matrices (subbodies self ! 0) (subbodies self ! d) kwargs)) 2 0,
           toeplitz_upto astype f 2
             (\<lambda>d. snd (build_matrices (subbodies self ! 0) (subbodies self ! d) kwargs)) 2 0),
          [(subbodies self ! 0, subbodies self ! 0, kwargs),
           (subbodies self ! 0, subbodies self ! 1, kwargs)])"
proof -
  let ?subs = "subbodies self"
  let ?KS = "\<lambda>d. fst (build_matrices (?subs ! 0) (?subs ! d) kwargs)"
  let ?KV = "\<lambda>d. snd (build_matrices (?subs ! 0) (?subs ! d) kwargs)"
  let ?S = "toeplitz_upto astype f 2 ?KS"
  let ?V = "toeplitz_upto astype f 2 ?KV"
  let ?N = "2 * f"
  have nb: "collection_nb_faces self = ?N"
    using collection_nb_faces_uniform [OF uni] len by simp
  have shapes: "shape (?KS d) = (f, f)" "shape (?KV d) = (f, f)" if "d < 2" for d
    using K uni that len by (simp_all add: kernel_shapes_def)
  note q = quarter_blocks [of f]
  have two: "(0::nat) < 2" "(1::nat) < 2" "(1::nat) \<le> 1"
    by simp_all
  have rows0: "indices (fst (top_left ?N)) (2 * f) = (0, f)"
    "indices (fst (top_right ?N)) (2 * f) = (0, f)"
    using q by simp_all
  have S1: "setitem astype (np_empty (?N, ?N) complex64) (top_left ?N) (?KS 0) = Inr (?S 0 1)"
    using toeplitz_first_row_step [where K = ?KS and k = 0, OF rows0(1) q(2) two(1) shapes(1) [OF two(1)]]
    by (simp add: toeplitz_upto_start [of 2 f astype ?KS])
  have V1: "setitem astype (np_empty (?N, ?N) complex64) (top_left ?N) (?KV 0) = Inr (?V 0 1)"
    using toeplitz_first_row_step [where K = ?KV and k = 0, OF rows0(1) q(2) two(1) shapes(2) [OF two(1)]]
    by (simp add: toeplitz_upto_start [of 2 f astype ?KV])
  have S2: "setitem astype (?S 0 1) (top_right ?N) (?KS 1) = Inr (?S 1 0)"
    using toeplitz_first_row_step [where K = ?KS and k = 1, OF rows0(2) q(4) two(2) shapes(1) [OF two(2)]]
      toeplitz_upto_roll [of astype f 2 ?KS 0]
    by (simp add: numeral_2_eq_2)
  have V2: "setitem astype (?V 0 1) (top_right ?N) (?KV 1) = Inr (?V 1 0)"
    using toeplitz_first_row_step [where K = ?KV and k = 1, OF rows0(2) q(4) two(2) shapes(2) [OF two(2)]]
      toeplitz_upto_roll [of astype f 2 ?KV 0]
    by (simp add: numeral_2_eq_2)
  have d10: "(1::nat) = nat \<bar>int 0 - int 1\<bar>" and d11: "(0::nat) = nat \<bar>int 1 - int 1\<bar>"
    by simp_all
  have S3: "setitem astype (?S 1 0) (bottom_left ?N) (getitem (?S 1 0) (top_right ?N)) = Inr (?S 1 1)"
    using toeplitz_copy_step [where K = ?KS, OF q(5) q(6) rows0(2) q(4) d10 two(3) two(2) two(1)]
    by simp
  have V3: "setitem astype (?V 1 0) (bottom_left ?N) (getitem (?V 1 0) (top_right ?N)) = Inr (?V 1 1)"
    using toeplitz_copy_step [where K = ?KV, OF q(5) q(6) rows0(2) q(4) d10 two(3) two(2) two(1)]
    by simp
  have S4: "setitem astype (?S 1 1) (bottom_right ?N) (getitem (?S 1 1) (top_left ?N)) = Inr (?S 2 0)"
    using toeplitz_copy_step [where K = ?KS, OF q(7) q(8) rows0(1) q(2) d11 two(3) two(2) two(2)]
      toeplitz_upto_roll [of astype f 2 ?KS 1]
    by (simp add: numeral_2_eq_2)
  have V4: "setitem astype (?V 1 1) (bottom_right ?N) (getitem (?V 1 1) (top_left ?N)) = Inr (?V 2 0)"
    using toeplitz_copy_step [where K = ?KV, OF q(7) q(8) rows0(1) q(2) d11 two(3) two(2) two(2)]
      toeplitz_upto_roll [of astype f 2 ?KV 1]
    by (simp add: numeral_2_eq_2)
  show ?thesis
    unfolding ReflectionSymmetry_build_matrices_def
    using len S1 V1 S2 V2 S3 V3 S4 V4
    by (simp add: Let_def nb index_def bind_result_def assign_both_def)
qed

section \<open>The concrete setting\<close>

lemma setting_ok:
  "kernel_shapes separation_kernel"
  "keeps_faces (id :: (int list, int) FloatingBody \<Rightarrow> (int list, int) FloatingBody)"
  "keeps_faces (flip p)"
  "keeps_faces (shift v)"
  by (simp_all add: kernel_shapes_def keeps_faces_def separation_kernel_def flip_def shift_def)

lemma plate_rows:
  "1 \<le> n \<Longrightarrow>
   \<exists>self. fst (TranslationalSymmetry_init id shift (*) plate [1, 0, 0] (PyInt n :: unit pyval))
            = Inr self"
  using translation_init_subbodies [of "PyInt n :: unit pyval" "[1, 0, 0 :: int]" id shift "(*)" plate]
  by simp

lemma plate_row_generators:
  assumes "fst (TranslationalSymmetry_init id shift (*) plate [1, 0, 0] (PyInt 2 :: unit pyval))
             = Inr self"
  shows "length (subbodies self) = 3"
    and "geometry (subbodies self ! 0) = [0, 0, 0]"
    and "geometry (subbodies self ! 1) = [1, 0, 0]"
    and "geometry (subbodies self ! 2) = [2, 0, 0]"
    and "nb_faces (subbodies self ! 0) = 2"
    and "nb_faces (subbodies self ! 1) = 2"
    and "nb_faces (subbodies self ! 2) = 2"
proof -
  have h: "isinstance_int (PyInt 2 :: unit pyval)" "1 \<le> int_value (PyInt 2 :: unit pyval)"
    "length [1, 0, 0 :: int] = 3"
    by simp_all
  have upto: "[1 .. 2 :: int] = [1, 2]"
    by (simp add: upto.simps)
  from assms have self: "subbodies self =
      [plate\<lparr>nb_matrices_to_keep := nb_matrices_to_keep plate * 2\<rparr>,
       new_slice id shift (*) (plate\<lparr>nb_matrices_to_keep := nb_matrices_to_keep plate * 2\<rparr>)
         [1, 0, 0] 2 1,
       new_slice id shift (*) (plate\<lparr>nb_matrices_to_keep := nb_matrices_to_keep plate * 2\<rparr>)
         [1, 0, 0] 2 2]"
    unfolding translation_init_subbodies [OF h] by (auto simp: upto)
  show "length (subbodies self) = 3"
    by (simp add: self)
  show "geometry (subbodies self ! 0) = [0, 0, 0]" "geometry (subbodies self ! 1) = [1, 0, 0]"
    "geometry (subbodies self ! 2) = [2, 0, 0]"
    by (simp_all add: self new_slice_def shift_def plate_def Let_def)
  show "nb_faces (subbodies self ! 0) = 2" "nb_faces (subbodies self ! 1) = 2"
    "nb_faces (subbodies self ! 2) = 2"
    by (simp_all add: self new_slice_def shift_def plate_def Let_def)
qed


lemma separation_kernel_entry:
  assumes "i < nb_faces a" and "j < nb_faces b"
  shows "item (ndarray_astype halve_precision complex64 (fst (separation_kernel a b ()))) i j
           = Some (2 * ((1000 * (hd (geometry b) - hd (geometry a)) + 10 * int i + int j) div 2))"
    and "item (ndarray_astype halve_precision complex64 (snd (separation_kernel a b ()))) i j
           = Some (2 * ((- (1000 * (hd (geometry b) - hd (geometry a)) + 10 * int i + int j)) div 2))"
  using assms
  by (simp_all add: ndarray_astype_def separation_kernel_def cast_def halve_precision_def)

section \<open>Reflection composites\<close>

text \<open>
  C10. If copying and mirroring keep the number of faces, the composite built from a half
  with \<open>f\<close> faces has exactly two generators of \<open>f\<close> faces each; its face count is \<open>2f\<close>,
  which is even and whose integer half is \<open>f\<close>; and every position of the square output
  matrix lies in exactly one of the four quarters used by the accelerated branch (and a
  position outside the matrix in none).
\<close>

theorem reflection_partition:
  assumes "keeps_faces copy" and "keeps_faces (mirror plane)"
  shows "let self = fst (ReflectionSymmetry_init copy mirror half plane);
             nb = collection_nb_faces self
         in length (subbodies self) = 2 \<and>
            (\<forall>b\<in>set (subbodies self). nb_faces b = nb_faces half) \<and>
            nb = 2 * nb_faces half \<and> even nb \<and> nb div 2 = nb_faces half \<and>
            (\<forall>i j. length (filter (\<lambda>quarter. selected quarter (nb, nb) i j)
                             [top_left nb, top_right nb, bottom_left nb, bottom_right nb])
                     = (if i < nb \<and> j < nb then 1 else 0))"
proof -
  let ?self = "fst (ReflectionSymmetry_init copy mirror half plane)"
  let ?f = "nb_faces half"
  note gen = reflection_init_generators
    [where copy = copy and mirror = mirror and plane = plane and half = half, OF assms]
  have nb: "collection_nb_faces ?self = 2 * ?f"
    using collection_nb_faces_uniform [OF gen(2)] gen(1) by simp
  have part: "length (filter (\<lambda>quarter. selected quarter (2 * ?f, 2 * ?f) i j)
          [top_left (2 * ?f), top_right (2 * ?f), bottom_left (2 * ?f), bottom_right (2 * ?f)])
          = (if i < 2 * ?f \<and> j < 2 * ?f then 1 else 0)" for i j
    by (cases "i < ?f"; cases "j < ?f") (auto simp: selected_quarters)
  have arith: "even (2 * ?f)" "(2 * ?f) div 2 = ?f"
    by simp_all
  show ?thesis
    unfolding Let_def nb using gen arith part by blast
qed

text \<open>The mirrored plate: four faces.\<close>

theorem reflection_partition_witness:
  "keeps_faces (id :: (int list, int) FloatingBody \<Rightarrow> (int list, int) FloatingBody) \<and>
   keeps_faces (flip ()) \<and>
   (let self = fst (ReflectionSymmetry_init id flip plate ());
        nb = collection_nb_faces self
    in length (subbodies self) = 2 \<and>
       (\<forall>b\<in>set (subbodies self). nb_faces b = nb_faces plate) \<and>
       nb = 2 * nb_faces plate \<and> even nb \<and> nb div 2 = nb_faces plate \<and>
       (\<forall>i j. length (filter (\<lambda>quarter. selected quarter (nb, nb) i j)
                        [top_left nb, top_right nb, bottom_left nb, bottom_right nb])
                = (if i < nb \<and> j < nb then 1 else 0))) \<and>
   nb_faces plate = 2"
  using reflection_partition [where copy = id and mirror = flip and plane = "()" and half = plate,
      OF setting_ok(2) setting_ok(3)] setting_ok(2,3)
  by (simp add: plate_def)



section \<open>Translation composites\<close>

text \<open>
  C6. On a translation composite with \<open>m\<close> generators the accelerated branch returns
  matrices \<open>S\<close> and \<open>V\<close> in which block \<open>(i, j)\<close>, cut at the running sums of the face
  counts, is the kernel's array for the pair (generator 0, generator \<open>\<bar>j - i\<bar>\<close>) converted
  to \<^verbatim>\<open>complex64\<close>, and so equals block \<open>(0, \<bar>j - i\<bar>)\<close> as an array, for all \<open>i, j < m\<close>.
\<close>

theorem translation_toeplitz:
  fixes build_matrices ::
    "('g, 's) FloatingBody \<Rightarrow> ('g, 's) FloatingBody \<Rightarrow> 'k \<Rightarrow> 'a ndarray \<times> 'a ndarray"
  assumes K: "kernel_shapes build_matrices"
    and copy: "keeps_faces copy" and translate: "\<forall>v. keeps_faces (translate v)"
    and init: "fst (TranslationalSymmetry_init copy translate mul body_slice translation
                 nb_repetitions) = Inr self"
  shows "\<exists>S V calls.
     TranslationalSymmetry_build_matrices build_matrices assemble astype self Self False kwargs
       = Inr ((S, V), calls) \<and>
     (\<forall>i < length (subbodies self). \<forall>j < length (subbodies self).
        getitem S (matrix_blocks (accumulate (0 # map nb_faces (subbodies self))) ! i ! j)
          = ndarray_astype astype complex64
              (fst (build_matrices (subbodies self ! 0)
                      (subbodies self ! nat \<bar>int j - int i\<bar>) kwargs)) \<and>
        getitem V (matrix_blocks (accumulate (0 # map nb_faces (subbodies self))) ! i ! j)
          = ndarray_astype astype complex64
              (snd (build_matrices (subbodies self ! 0)
                      (subbodies self ! nat \<bar>int j - int i\<bar>) kwargs)) \<and>
        getitem S (matrix_blocks (accumulate (0 # map nb_faces (subbodies self))) ! i ! j)
          = getitem S (matrix_blocks (accumulate (0 # map nb_faces (subbodies self)))
                         ! 0 ! nat \<bar>int j - int i\<bar>) \<and>
        getitem V (matrix_blocks (accumulate (0 # map nb_faces (subbodies self))) ! i ! j)
          = getitem V (matrix_blocks (accumulate (0 # map nb_faces (subbodies self)))
                         ! 0 ! nat \<bar>int j - int i\<bar>))"
proof -
  let ?subs = "subbodies self"
  let ?m = "length ?subs"
  let ?f = "nb_faces body_slice"
  let ?KS = "\<lambda>d. fst (build_matrices (?subs ! 0) (?subs ! d) kwargs)"
  let ?KV = "\<lambda>d. snd (build_matrices (?subs ! 0) (?subs ! d) kwargs)"
  let ?S = "toeplitz_upto astype ?f ?m ?KS ?m 0"
  let ?V = "toeplitz_upto astype ?f ?m ?KV ?m 0"
  let ?blocks = "matrix_blocks (accumulate (0 # map nb_faces ?subs))"
  note gen = translation_init_generators [OF copy translate init]
  have m: "0 < ?m"
    using gen(2) by simp
  have shapes: "shape (?KS d) = (?f, ?f)" "shape (?KV d) = (?f, ?f)" if "d < ?m" for d
    using K gen(3) that m by (simp_all add: kernel_shapes_def)
  have "getitem ?S (?blocks ! i ! j) = ndarray_astype astype complex64 (?KS (nat \<bar>int j - int i\<bar>)) \<and>
        getitem ?V (?blocks ! i ! j) = ndarray_astype astype complex64 (?KV (nat \<bar>int j - int i\<bar>)) \<and>
        getitem ?S (?blocks ! i ! j) = getitem ?S (?blocks ! 0 ! nat \<bar>int j - int i\<bar>) \<and>
        getitem ?V (?blocks ! i ! j) = getitem ?V (?blocks ! 0 ! nat \<bar>int j - int i\<bar>)"
    if i: "i < ?m" and j: "j < ?m" for i j
  proof -
    let ?d = "nat \<bar>int j - int i\<bar>"
    have d: "?d < ?m"
      using i j by linarith
    have d0: "nat \<bar>int ?d - int 0\<bar> = ?d"
      by simp
    have "getitem ?S (?blocks ! i ! j) = ndarray_astype astype complex64 (?KS ?d)"
      by (rule uniform_block [where K = ?KS, OF gen(3) i j shapes(1) [OF d]])
    moreover have "getitem ?S (?blocks ! 0 ! ?d) = ndarray_astype astype complex64 (?KS ?d)"
      using uniform_block [where K = ?KS and i = 0 and j = ?d, OF gen(3) m d] shapes(1) [OF d]
      unfolding d0 by simp
    moreover have "getitem ?V (?blocks ! i ! j) = ndarray_astype astype complex64 (?KV ?d)"
      by (rule uniform_block [where K = ?KV, OF gen(3) i j shapes(2) [OF d]])
    moreover have "getitem ?V (?blocks ! 0 ! ?d) = ndarray_astype astype complex64 (?KV ?d)"
      using uniform_block [where K = ?KV and i = 0 and j = ?d, OF gen(3) m d] shapes(2) [OF d]
      unfolding d0 by simp
    ultimately show ?thesis
      by simp
  qed
  with translation_accelerated [OF gen(2) gen(3) K, of assemble astype kwargs]
  show ?thesis
    by blast
qed

text \<open>
  The plate repeated twice: three generators, nine blocks; the entries at (1, 1) of some
  blocks, which differ with the separation.
\<close>

theorem translation_toeplitz_witness:
  "kernel_shapes separation_kernel \<and>
   keeps_faces (id :: (int list, int) FloatingBody \<Rightarrow> (int list, int) FloatingBody) \<and>
   (\<forall>v. keeps_faces (shift v)) \<and>
   (\<exists>self. fst (TranslationalSymmetry_init id shift (*) plate [1, 0, 0] (PyInt 2 :: unit pyval))
            = Inr self \<and>
      length (subbodies self) = 3 \<and>
      (\<exists>S V calls.
         TranslationalSymmetry_build_matrices separation_kernel no_assembly halve_precision
           self Self False () = Inr ((S, V), calls) \<and>
         item (getitem S (matrix_blocks (accumulate (0 # map nb_faces (subbodies self))) ! 2 ! 0)) 1 1
           = Some 2010 \<and>
         item (getitem S (matrix_blocks (accumulate (0 # map nb_faces (subbodies self))) ! 0 ! 2)) 1 1
           = Some 2010 \<and>
         item (getitem S (matrix_blocks (accumulate (0 # map nb_faces (subbodies self))) ! 1 ! 0)) 1 1
           = Some 1010 \<and>
         item (getitem S (matrix_blocks (accumulate (0 # map nb_faces (subbodies self))) ! 1 ! 1)) 1 1
           = Some 10 \<and>
         item (getitem V (matrix_blocks (accumulate (0 # map nb_faces (subbodies self))) ! 2 ! 1)) 1 1
           = Some (- 1012) \<and>
         getitem S (matrix_blocks (accumulate (0 # map nb_faces (subbodies self))) ! 2 ! 0)
           = getitem S (matrix_blocks (accumulate (0 # map nb_faces (subbodies self))) ! 0 ! 2)))"
proof -
  have shift: "\<forall>v. keeps_faces (shift v)"
    by (simp add: setting_ok)
  from plate_rows [of 2] obtain self where
    self: "fst (TranslationalSymmetry_init id shift (*) plate [1, 0, 0] (PyInt 2 :: unit pyval))
            = Inr self"
    by auto
  note g = plate_row_generators [OF self]
  let ?blocks = "matrix_blocks (accumulate (0 # map nb_faces (subbodies self)))"
  from translation_toeplitz [OF setting_ok(1) setting_ok(2) shift self,
      of no_assembly halve_precision "()"]
  obtain S V calls where
    run: "TranslationalSymmetry_build_matrices separation_kernel no_assembly halve_precision
           self Self False () = Inr ((S, V), calls)"
    and blocks: "\<And>i j. i < 3 \<Longrightarrow> j < 3 \<Longrightarrow>
        getitem S (?blocks ! i ! j)
          = ndarray_astype halve_precision complex64
              (fst (separation_kernel (subbodies self ! 0)
                      (subbodies self ! nat \<bar>int j - int i\<bar>) ())) \<and>
        getitem V (?blocks ! i ! j)
          = ndarray_astype halve_precision complex64
              (snd (separation_kernel (subbodies self ! 0)
                      (subbodies self ! nat \<bar>int j - int i\<bar>) ())) \<and>
        getitem S (?blocks ! i ! j) = getitem S (?blocks ! 0 ! nat \<bar>int j - int i\<bar>)"
    unfolding g(1) by blast
  have e20: "item (getitem S (?blocks ! 2 ! 0)) 1 1 = Some 2010"
    using blocks [of 2 0] separation_kernel_entry(1) [of 1 "subbodies self ! 0" 1 "subbodies self ! 2"] g
    by simp
  have e02: "item (getitem S (?blocks ! 0 ! 2)) 1 1 = Some 2010"
    using blocks [of 0 2] separation_kernel_entry(1) [of 1 "subbodies self ! 0" 1 "subbodies self ! 2"] g
    by simp
  have e10: "item (getitem S (?blocks ! 1 ! 0)) 1 1 = Some 1010"
    using blocks [of 1 0] separation_kernel_entry(1) [of 1 "subbodies self ! 0" 1 "subbodies self ! 1"] g
    by simp
  have e11: "item (getitem S (?blocks ! 1 ! 1)) 1 1 = Some 10"
    using blocks [of 1 1] separation_kernel_entry(1) [of 1 "subbodies self ! 0" 1 "subbodies self ! 0"] g
    by simp
  have v21: "item (getitem V (?blocks ! 2 ! 1)) 1 1 = Some (- 1012)"
    using blocks [of 2 1] separation_kernel_entry(2) [of 1 "subbodies self ! 0" 1 "subbodies self ! 1"] g
    by simp
  have d: "nat \<bar>int 0 - int 2\<bar> = 2"
    by simp
  have same: "getitem S (?blocks ! 2 ! 0) = getitem S (?blocks ! 0 ! 2)"
    using blocks [of 2 0, simplified] unfolding d by (elim conjE) simp
  from self g(1) run e20 e02 e10 e11 v21 same setting_ok(1,2) shift show ?thesis
    by blast
qed

section \<open>Both composites\<close>



text \<open>
  C9. The matrices returned by the accelerated branch of both methods have the element
  type \<^verbatim>\<open>complex64\<close>, whatever the element type of the arrays the kernel returns: every
  evaluated block (the two top quarters, the first row of blocks) is the array of the
  kernel converted to \<^verbatim>\<open>complex64\<close>.
\<close>

theorem accelerated_dtype:
  fixes build_matrices ::
    "('g, 's) FloatingBody \<Rightarrow> ('g, 's) FloatingBody \<Rightarrow> 'k \<Rightarrow> 'a ndarray \<times> 'a ndarray"
  assumes K: "kernel_shapes build_matrices"
    and copy: "keeps_faces copy" and mirror: "keeps_faces (mirror plane)"
    and translate: "\<forall>v. keeps_faces (translate v)"
    and reflected: "reflected = fst (ReflectionSymmetry_init copy mirror half plane)"
    and init: "fst (TranslationalSymmetry_init copy translate mul body_slice translation
                 nb_repetitions) = Inr repeated"
  shows "(\<exists>S V calls.
            ReflectionSymmetry_build_matrices build_matrices assemble astype
              reflected Self False kwargs = Inr ((S, V), calls) \<and>
            dtype S = complex64 \<and> dtype V = complex64 \<and>
            getitem S (top_left (collection_nb_faces reflected))
              = ndarray_astype astype complex64
                  (fst (build_matrices (subbodies reflected ! 0) (subbodies reflected ! 0) kwargs)) \<and>
            getitem V (top_left (collection_nb_faces reflected))
              = ndarray_astype astype complex64
                  (snd (build_matrices (subbodies reflected ! 0) (subbodies reflected ! 0) kwargs)) \<and>
            getitem S (top_right (collection_nb_faces reflected))
              = ndarray_astype astype complex64
                  (fst (build_matrices (subbodies reflected ! 0) (subbodies reflected ! 1) kwargs)) \<and>
            getitem V (top_right (collection_nb_faces reflected))
              = ndarray_astype astype complex64
                  (snd (build_matrices (subbodies reflected ! 0) (subbodies reflected ! 1) kwargs))) \<and>
         (\<exists>S V calls.
            TranslationalSymmetry_build_matrices build_matrices assemble' astype
              repeated Self False kwargs = Inr ((S, V), calls) \<and>
            dtype S = complex64 \<and> dtype V = complex64 \<and>
            (\<forall>j < length (subbodies repeated).
               getitem S (matrix_blocks (accumulate (0 # map nb_faces (subbodies repeated))) ! 0 ! j)
                 = ndarray_astype astype complex64
                     (fst (build_matrices (subbodies repeated ! 0) (subbodies repeated ! j) kwargs)) \<and>
               getitem V (matrix_blocks (accumulate (0 # map nb_faces (subbodies repeated))) ! 0 ! j)
                 = ndarray_astype astype complex64
                     (snd (build_matrices (subbodies repeated ! 0) (subbodies repeated ! j) kwargs))))"
proof -
  have dt: "dtype (toeplitz_upto astype f m X i j) = complex64"
    for f m i j and X :: "nat \<Rightarrow> 'a ndarray"
    by (simp add: toeplitz_upto_def)
  \<comment> \<open>reflection\<close>
  let ?f = "nb_faces half"
  let ?KS = "\<lambda>d. fst (build_matrices (subbodies reflected ! 0) (subbodies reflected ! d) kwargs)"
  let ?KV = "\<lambda>d. snd (build_matrices (subbodies reflected ! 0) (subbodies reflected ! d) kwargs)"
  note r = reflection_init_generators
    [where copy = copy and mirror = mirror and plane = plane and half = half,
     OF copy mirror, folded reflected]
  have nb: "collection_nb_faces reflected = 2 * ?f"
    using collection_nb_faces_uniform [OF r(2)] r(1) by simp
  have shapes: "shape (?KS d) = (?f, ?f)" "shape (?KV d) = (?f, ?f)" if "d < 2" for d
    using K r that by (simp_all add: kernel_shapes_def)
  note q = quarter_blocks [of ?f]
  have two: "(0::nat) < 2" "(1::nat) < 2"
    by simp_all
  have d: "nat \<bar>int 1 - int 0\<bar> = 1" "nat \<bar>int 0 - int 0\<bar> = 0"
    by simp_all
  have top:
    "getitem (toeplitz_upto astype ?f 2 X 2 0) (top_left (2 * ?f))
       = ndarray_astype astype complex64 (X 0)"
    "getitem (toeplitz_upto astype ?f 2 X 2 0) (top_right (2 * ?f))
       = ndarray_astype astype complex64 (X 1)"
    if X: "\<And>d. d < 2 \<Longrightarrow> shape (X d) = (?f, ?f)" for X :: "nat \<Rightarrow> 'a ndarray"
  proof -
    have X0: "shape (X 0) = (?f, ?f)" and X1: "shape (X 1) = (?f, ?f)"
      using X by simp_all
    show "getitem (toeplitz_upto astype ?f 2 X 2 0) (top_left (2 * ?f))
            = ndarray_astype astype complex64 (X 0)"
      using toeplitz_block [where K = X and i = 0 and j = 0, OF q(1) q(2) two(1) two(1)] X0
      by (simp only: d)
    show "getitem (toeplitz_upto astype ?f 2 X 2 0) (top_right (2 * ?f))
            = ndarray_astype astype complex64 (X 1)"
      using toeplitz_block [where K = X and i = 0 and j = 1, OF q(3) q(4) two(1) two(2)] X1
      by (simp only: d)
  qed
  have refl_part: "\<exists>S V calls.
            ReflectionSymmetry_build_matrices build_matrices assemble astype
              reflected Self False kwargs = Inr ((S, V), calls) \<and>
            dtype S = complex64 \<and> dtype V = complex64 \<and>
            getitem S (top_left (collection_nb_faces reflected))
              = ndarray_astype astype complex64 (?KS 0) \<and>
            getitem V (top_left (collection_nb_faces reflected))
              = ndarray_astype astype complex64 (?KV 0) \<and>
            getitem S (top_right (collection_nb_faces reflected))
              = ndarray_astype astype complex64 (?KS 1) \<and>
            getitem V (top_right (collection_nb_faces reflected))
              = ndarray_astype astype complex64 (?KV 1)"
    using reflection_accelerated [OF r K, of assemble astype kwargs]
      top [of ?KS, OF shapes(1)] top [of ?KV, OF shapes(2)] dt
    unfolding nb by blast
  \<comment> \<open>translation\<close>
  let ?subs = "subbodies repeated"
  let ?m = "length ?subs"
  let ?g = "nb_faces body_slice"
  let ?TS = "\<lambda>d. fst (build_matrices (?subs ! 0) (?subs ! d) kwargs)"
  let ?TV = "\<lambda>d. snd (build_matrices (?subs ! 0) (?subs ! d) kwargs)"
  let ?blocks = "matrix_blocks (accumulate (0 # map nb_faces ?subs))"
  note t = translation_init_generators [OF copy translate init]
  have m: "0 < ?m"
    using t(2) by simp
  have tshapes: "shape (?TS d) = (?g, ?g)" "shape (?TV d) = (?g, ?g)" if "d < ?m" for d
    using K t(3) that m by (simp_all add: kernel_shapes_def)
  have row: "getitem (toeplitz_upto astype ?g ?m ?TS ?m 0) (?blocks ! 0 ! j)
               = ndarray_astype astype complex64 (?TS j) \<and>
             getitem (toeplitz_upto astype ?g ?m ?TV ?m 0) (?blocks ! 0 ! j)
               = ndarray_astype astype complex64 (?TV j)"
    if j: "j < ?m" for j
  proof -
    have d0: "nat \<bar>int j - int 0\<bar> = j"
      by simp
    show ?thesis
      using uniform_block [where K = ?TS and i = 0 and j = j, OF t(3) m j]
        uniform_block [where K = ?TV and i = 0 and j = j, OF t(3) m j]
        tshapes [OF j]
      unfolding d0 by simp
  qed
  have trans_part: "\<exists>S V calls.
            TranslationalSymmetry_build_matrices build_matrices assemble' astype
              repeated Self False kwargs = Inr ((S, V), calls) \<and>
            dtype S = complex64 \<and> dtype V = complex64 \<and>
            (\<forall>j < ?m.
               getitem S (?blocks ! 0 ! j) = ndarray_astype astype complex64 (?TS j) \<and>
               getitem V (?blocks ! 0 ! j) = ndarray_astype astype complex64 (?TV j))"
    using translation_accelerated [OF t(2) t(3) K, of assemble' astype kwargs] row dt
    by blast
  from refl_part trans_part show ?thesis
    by blast
qed

text \<open>The separation kernel returns \<^verbatim>\<open>complex128\<close> arrays.\<close>

theorem accelerated_dtype_witness:
  "kernel_shapes separation_kernel \<and>
   keeps_faces (id :: (int list, int) FloatingBody \<Rightarrow> (int list, int) FloatingBody) \<and>
   keeps_faces (flip ()) \<and> (\<forall>v. keeps_faces (shift v)) \<and>
   dtype (fst (separation_kernel plate plate ())) = complex128 \<and>
   (\<exists>repeated.
      fst (TranslationalSymmetry_init id shift (*) plate [1, 0, 0] (PyInt 2 :: unit pyval))
        = Inr repeated \<and>
      (\<exists>S V calls.
          ReflectionSymmetry_build_matrices separation_kernel no_assembly halve_precision
            (fst (ReflectionSymmetry_init id flip plate ())) Self False ()
            = Inr ((S, V), calls) \<and>
          dtype S = complex64 \<and> dtype V = complex64) \<and>
      (\<exists>S V calls.
          TranslationalSymmetry_build_matrices separation_kernel no_assembly halve_precision
            repeated Self False () = Inr ((S, V), calls) \<and>
          dtype S = complex64 \<and> dtype V = complex64))"
proof -
  have shift: "\<forall>v. keeps_faces (shift v)"
    by (simp add: setting_ok)
  have kernel: "dtype (fst (separation_kernel plate plate ())) = complex128"
    by (simp add: separation_kernel_def)
  from plate_rows [of 2] obtain repeated where
    init: "fst (TranslationalSymmetry_init id shift (*) plate [1, 0, 0] (PyInt 2 :: unit pyval))
            = Inr repeated"
    by auto
  from accelerated_dtype [where mirror = flip and plane = "()" and half = plate
      and assemble = no_assembly and assemble' = no_assembly and astype = halve_precision
      and kwargs = "()", OF setting_ok(1) setting_ok(2) setting_ok(3) shift refl init]
  have "(\<exists>S V calls.
          ReflectionSymmetry_build_matrices separation_kernel no_assembly halve_precision
            (fst (ReflectionSymmetry_init id flip plate ())) Self False ()
            = Inr ((S, V), calls) \<and>
          dtype S = complex64 \<and> dtype V = complex64) \<and>
      (\<exists>S V calls.
          TranslationalSymmetry_build_matrices separation_kernel no_assembly halve_precision
            repeated Self False () = Inr ((S, V), calls) \<and>
          dtype S = complex64 \<and> dtype V = complex64)"
    by blast
  with init kernel setting_ok(1,2,3) shift show ?thesis
    by blast
qed

section \<open>The branch that does not use the symmetry\<close>

text \<open>
  C2. Whenever the target is not the composite itself, or the full computation is forced,
  \<^verbatim>\<open>TranslationalSymmetry.build_matrices\<close> raises \<^verbatim>\<open>UnboundLocalError\<close>: the argument of
  the delegated call is the local variable \<^verbatim>\<open>body\<close>, which only the loop of the other
  branch binds, where the parameter \<^verbatim>\<open>other_body\<close> is meant. The generic assembly is never
  reached.
\<close>

theorem translation_fallback_raises:
  "other_body \<noteq> Self \<or> force_full_computation \<Longrightarrow>
   TranslationalSymmetry_build_matrices build_matrices assemble astype
     self other_body force_full_computation kwargs = Inl UnboundLocalError"
  by (auto simp: TranslationalSymmetry_build_matrices_def)

text \<open>A target other than the composite, with an assembly that would have returned.\<close>

theorem translation_fallback_raises_witness:
  "TranslationalSymmetry_build_matrices separation_kernel no_assembly halve_precision
     \<lparr>name = ''repeated_plate'', dofs = [], subbodies = [plate, shift [1, 0, 0] plate]\<rparr>
     (Body plate) False () = Inl UnboundLocalError \<and>
   no_assembly \<lparr>name = ''repeated_plate'', dofs = [], subbodies = [plate, shift [1, 0, 0] plate]\<rparr>
     (Body plate) () \<noteq> Inl UnboundLocalError"
  using translation_fallback_raises [of "Body plate" False separation_kernel no_assembly
      halve_precision "\<lparr>name = ''repeated_plate'', dofs = [], subbodies = [plate, shift [1, 0, 0] plate]\<rparr>" "()"]
  by (simp add: no_assembly_def)

text \<open>
  C1. For the translation composite of two plates the two calls of the claim do not return
  the same matrices: the call on the composite itself returns a pair of matrices, the call
  with \<^verbatim>\<open>force_full_computation=True\<close> raises \<^verbatim>\<open>UnboundLocalError\<close>.
\<close>

theorem translation_equivalence_fails:
  "\<exists>self. fst (TranslationalSymmetry_init id shift (*) plate [1, 0, 0] (PyInt 1 :: unit pyval))
            = Inr self \<and>
     (\<exists>r. TranslationalSymmetry_build_matrices separation_kernel no_assembly halve_precision
             self Self False () = Inr r) \<and>
     TranslationalSymmetry_build_matrices separation_kernel no_assembly halve_precision
       self Self True () = Inl UnboundLocalError"
proof -
  have shift: "\<forall>v. keeps_faces (shift v)"
    by (simp add: setting_ok)
  from plate_rows [of 1] obtain self where
    init: "fst (TranslationalSymmetry_init id shift (*) plate [1, 0, 0] (PyInt 1 :: unit pyval))
            = Inr self"
    by auto
  note t = translation_init_generators [OF setting_ok(2) shift init]
  have "\<exists>r. TranslationalSymmetry_build_matrices separation_kernel no_assembly halve_precision
             self Self False () = Inr r"
    using translation_accelerated [OF t(2) t(3) setting_ok(1), of no_assembly halve_precision "()"]
    by simp
  moreover have "TranslationalSymmetry_build_matrices separation_kernel no_assembly
      halve_precision self Self True () = Inl UnboundLocalError"
    by (simp add: TranslationalSymmetry_build_matrices_def)
  ultimately show ?thesis
    using init by blast
qed

end
